theory Spec2Isabelle
  imports Complex_Main
begin

section \<open>JavaScript strings and arrays\<close>

text \<open>
  A JavaScript string is modelled as a \<open>string\<close>: a list of characters, each one a
  UTF-16 code unit in the range U+0000 to U+00FF. \<open>length\<close> is the \<open>.length\<close> of the
  source.
\<close>

definition is_space :: "char \<Rightarrow> bool" where
  \<comment> \<open>the class \<open>\s\<close> of a regular expression: tab, line feed, vertical tab, form feed,
      carriage return, space and no-break space\<close>
  "is_space c = (let n = (of_char c :: nat) in (9 \<le> n \<and> n \<le> 13) \<or> n = 32 \<or> n = 160)"

definition is_word_char :: "char \<Rightarrow> bool" where
  \<comment> \<open>the class \<open>\w\<close>: \<open>[A-Za-z0-9_]\<close>\<close>
  "is_word_char c = (let n = (of_char c :: nat) in
     (48 \<le> n \<and> n \<le> 57) \<or> (65 \<le> n \<and> n \<le> 90) \<or> n = 95 \<or> (97 \<le> n \<and> n \<le> 122))"

definition is_nonword :: "char \<Rightarrow> bool" where
  \<comment> \<open>the class \<open>\W\<close>\<close>
  "is_nonword c = (\<not> is_word_char c)"

definition lower_char :: "char \<Rightarrow> char" where
  "lower_char c = (let n = (of_char c :: nat) in
     if (65 \<le> n \<and> n \<le> 90) \<or> (192 \<le> n \<and> n \<le> 222 \<and> n \<noteq> 215) then char_of (n + 32) else c)"

definition toLowerCase :: "string \<Rightarrow> string" where
  "toLowerCase s = map lower_char s"

text \<open>
  \<open>s.split(/C+/)\<close> for a character class \<open>C\<close>: the pieces between the maximal runs of
  separator characters. A run at the start or at the end of the string leaves an empty
  piece there, and the empty string splits into one empty piece.
\<close>

lemma dropWhile_sep_shorter:
  assumes "dropWhile (\<lambda>c. \<not> P c) s \<noteq> []"
  shows "length (dropWhile P (dropWhile (\<lambda>c. \<not> P c) s)) < length s"
proof -
  obtain c cs where rc: "dropWhile (\<lambda>c. \<not> P c) s = c # cs"
    using assms by (cases "dropWhile (\<lambda>c. \<not> P c) s") auto
  have "\<not> \<not> P (hd (dropWhile (\<lambda>c. \<not> P c) s))"
    using assms by (rule hd_dropWhile)
  with rc have "P c" by simp
  with rc have "dropWhile P (dropWhile (\<lambda>c. \<not> P c) s) = dropWhile P cs" by simp
  moreover have "length (dropWhile P cs) \<le> length cs" by (rule length_dropWhile_le)
  moreover have "length (c # cs) \<le> length s"
    unfolding rc [symmetric] by (rule length_dropWhile_le)
  ultimately show ?thesis by simp
qed

function split_on :: "(char \<Rightarrow> bool) \<Rightarrow> string \<Rightarrow> string list" where
  "split_on P s =
     (let w = takeWhile (\<lambda>c. \<not> P c) s; r = dropWhile (\<lambda>c. \<not> P c) s
      in if r = [] then [w] else w # split_on P (dropWhile P r))"
  by pat_completeness auto
termination
  by (relation "measure (\<lambda>(P, s). length s)") (auto simp: dropWhile_sep_shorter)

declare split_on.simps [simp del]

definition split_ws :: "string \<Rightarrow> string list" where
  \<comment> \<open>\<open>s.split(/\s+/)\<close>\<close>
  "split_ws s = split_on is_space s"

definition split_nonword :: "string \<Rightarrow> string list" where
  \<comment> \<open>\<open>s.split(/\W+/)\<close>\<close>
  "split_nonword s = split_on is_nonword s"

definition word_count :: "string \<Rightarrow> nat" where
  \<comment> \<open>\<open>s.split(/\s+/).length\<close>\<close>
  "word_count s = length (split_ws s)"

fun join :: "string \<Rightarrow> string list \<Rightarrow> string" where
  \<comment> \<open>\<open>xs.join(sep)\<close>\<close>
  "join sep [] = []"
| "join sep [x] = x"
| "join sep (x # y # ys) = x @ sep @ join sep (y # ys)"

definition js_slice :: "'a list \<Rightarrow> int \<Rightarrow> int \<Rightarrow> 'a list" where
  \<comment> \<open>\<open>xs.slice(start, end)\<close>: a negative index counts from the end, and both are
      clamped to the array\<close>
  "js_slice xs start end =
     (let n = int (length xs);
          k = (if start < 0 then max (n + start) 0 else min start n);
          f = (if end < 0 then max (n + end) 0 else min end n)
      in take (nat (f - k)) (drop (nat k) xs))"

definition trim :: "string \<Rightarrow> string" where
  \<comment> \<open>\<open>s.trim()\<close>\<close>
  "trim s = rev (dropWhile is_space (rev (dropWhile is_space s)))"

function collapse_ws :: "string \<Rightarrow> string" where
  \<comment> \<open>\<open>s.replace(/\s+/g, ' ')\<close>\<close>
  "collapse_ws [] = []"
| "collapse_ws (c # cs) =
     (if is_space c then CHR '' '' # collapse_ws (dropWhile is_space cs)
      else c # collapse_ws cs)"
  by pat_completeness auto
termination
  by (relation "measure length") (auto simp: le_imp_less_Suc length_dropWhile_le)

fun index_of :: "'a list \<Rightarrow> 'a \<Rightarrow> int" where
  \<comment> \<open>\<open>xs.indexOf(x)\<close>: the first position of \<open>x\<close>, or \<open>-1\<close>\<close>
  "index_of [] x = -1"
| "index_of (y # ys) x = (if y = x then 0 else (let i = index_of ys x in if i < 0 then -1 else i + 1))"

text \<open>
  \<open>xs.sort(cmp)\<close> is the sort of the engine that runs the code, not code of the
  repository. A comparator result that is not a number counts as \<open>0\<close>. For a consistent
  comparator the language fixes the result: sorted, and stable. Where the comparator is
  not consistent the order is implementation-defined, and two comparators of the code
  can be inconsistent: the one by date answers \<open>0\<close> next to an invalid date, the one by
  score next to a score that is \<open>NaN\<close>. The sort is therefore a parameter of every
  function that sorts, and no property below rests on the order it gives.
\<close>

type_synonym 'a sorter = "('a \<Rightarrow> 'a \<Rightarrow> rat) \<Rightarrow> 'a list \<Rightarrow> 'a list"

section \<open>The extractive summarizer\<close>

text \<open>
  \<open>summarizeText\<close> (lines 191 to 339). The sentence tokenizer of the library is not part
  of the repository: it is a parameter, a function from the cleaned text to its
  sentences, or \<open>None\<close> when the library throws. The console is the only state outside
  the function that it touches: it is passed in and returned.

  A sentence score is the quotient of two counts. It is an exact rational here, which
  orders scores as their doubles do for a text of fewer than \<open>2 ^ 26\<close> words; \<open>None\<close> is
  the score \<open>NaN\<close>.
\<close>

type_synonym tokenizer = "string \<Rightarrow> string list option"

type_synonym console = "string list"

definition stopwords :: "string list" where
  "stopwords =
     [''a'', ''an'', ''the'', ''and'', ''or'', ''but'', ''is'', ''are'', ''was'', ''were'',
      ''in'', ''on'', ''at'', ''to'', ''for'', ''with'', ''by'', ''about'', ''from'', ''of'',
      ''that'', ''this'', ''these'', ''those'', ''it'', ''its'']"

text \<open>
  \<open>wordFreq\<close> is an object literal \<open>{}\<close>, so a key it does not own is looked up in
  \<open>Object.prototype\<close>. Of the members of the prototype only \<open>constructor\<close> and
  \<open>__proto__\<close> are lower-case words; their value is not a number, and adding \<open>1\<close> to it
  gives a string.
\<close>

datatype freq = Num nat | NotNum

type_synonym word_freq = "string \<Rightarrow> freq option"

definition inherited :: "string \<Rightarrow> bool" where
  "inherited w = (w = ''constructor'' \<or> w = ''__proto__'')"

definition lookup_freq :: "word_freq \<Rightarrow> string \<Rightarrow> freq option" where
  \<comment> \<open>\<open>wordFreq[word]\<close>\<close>
  "lookup_freq m w =
     (case m w of Some v \<Rightarrow> Some v | None \<Rightarrow> if inherited w then Some NotNum else None)"

definition truthy_freq :: "freq option \<Rightarrow> bool" where
  "truthy_freq v = (case v of None \<Rightarrow> False | Some (Num n) \<Rightarrow> n \<noteq> 0 | Some NotNum \<Rightarrow> True)"

definition bump :: "word_freq \<Rightarrow> string \<Rightarrow> word_freq" where
  \<comment> \<open>\<open>wordFreq[word] = (wordFreq[word] || 0) + 1\<close>; the setter of \<open>__proto__\<close> ignores
      a string\<close>
  "bump m w =
     (case lookup_freq m w of
        None \<Rightarrow> m(w \<mapsto> Num 1)
      | Some (Num n) \<Rightarrow> m(w \<mapsto> Num (n + 1))
      | Some NotNum \<Rightarrow> if w = ''__proto__'' then m else m(w \<mapsto> NotNum))"

definition content_words :: "string \<Rightarrow> string list" where
  \<comment> \<open>lines 232 to 234\<close>
  "content_words sentence =
     filter (\<lambda>word. length word > 1 \<and> word \<notin> set stopwords)
       (split_nonword (toLowerCase sentence))"

definition count_words :: "string list \<Rightarrow> word_freq" where
  \<comment> \<open>lines 231 to 239\<close>
  "count_words sentences =
     fold (\<lambda>sentence m. fold (\<lambda>word m'. bump m' word) (content_words sentence) m)
       sentences Map.empty"

record scored =
  sentence :: string
  score :: "rat option"
  wordCount :: nat

datatype total = Total nat | Text

definition add_score :: "word_freq \<Rightarrow> string \<Rightarrow> total \<Rightarrow> total" where
  \<comment> \<open>lines 247 to 249; \<open>score += v\<close> makes a string of the score once \<open>v\<close> is not a
      number, and the score stays a string\<close>
  "add_score m word sc =
     (if truthy_freq (lookup_freq m word) \<and> word \<notin> set stopwords then
        (case (sc, lookup_freq m word) of
           (Total t, Some (Num n)) \<Rightarrow> Total (t + n)
         | _ \<Rightarrow> Text)
      else sc)"

definition score_sentence :: "word_freq \<Rightarrow> string \<Rightarrow> scored" where
  \<comment> \<open>lines 242 to 258\<close>
  "score_sentence m s =
     (let words = filter (\<lambda>word. length word > 1) (split_nonword (toLowerCase s));
          sc = fold (add_score m) words (Total 0)
      in \<lparr> sentence = s,
           score = (if length words > 0 then
                      (case sc of Total t \<Rightarrow> Some (of_nat t / of_nat (length words)) | Text \<Rightarrow> None)
                    else Some 0),
           wordCount = word_count s \<rparr>)"

definition by_score :: "scored \<Rightarrow> scored \<Rightarrow> rat" where
  \<comment> \<open>\<open>(a, b) => b.score - a.score\<close>\<close>
  "by_score a b = (case (score a, score b) of (Some x, Some y) \<Rightarrow> y - x | _ \<Rightarrow> 0)"

definition by_position :: "string list \<Rightarrow> scored \<Rightarrow> scored \<Rightarrow> rat" where
  \<comment> \<open>\<open>(a, b) => sentences.indexOf(a.sentence) - sentences.indexOf(b.sentence)\<close>\<close>
  "by_position sentences a b =
     of_int (index_of sentences (sentence a) - index_of sentences (sentence b))"

definition pad_words :: "string list \<Rightarrow> int \<Rightarrow> int \<Rightarrow> string" where
  \<comment> \<open>lines 217 and 334\<close>
  "pad_words words minWords maxWords =
     join '' '' (js_slice (words @ js_slice words 0 (minWords - int (length words))) 0 maxWords)"

definition truncate_words :: "string list \<Rightarrow> int \<Rightarrow> string" where
  \<comment> \<open>lines 219 and 336\<close>
  "truncate_words words maxWords = join '' '' (js_slice words 0 maxWords) @ ''...''"

fun fit_sentences :: "int \<Rightarrow> int \<Rightarrow> string list \<Rightarrow> string \<Rightarrow> int \<Rightarrow> string \<times> int" where
  \<comment> \<open>the loop of lines 276 to 291\<close>
  "fit_sentences minWords maxWords [] summary currentWords = (summary, currentWords)"
| "fit_sentences minWords maxWords (s # ss) summary currentWords =
     (let sentenceWordCount = int (word_count s) in
      if currentWords + sentenceWordCount \<le> maxWords then
        fit_sentences minWords maxWords ss (summary @ s @ '' '') (currentWords + sentenceWordCount)
      else if summary = [] \<or> currentWords < minWords then
        (let wordsNeeded = min (maxWords - currentWords) sentenceWordCount in
         (summary @ join '' '' (js_slice (split_ws s) 0 wordsNeeded) @ ''... '',
          currentWords + wordsNeeded))
      else (summary, currentWords))"

fun add_sentences :: "int \<Rightarrow> int \<Rightarrow> scored list \<Rightarrow> string \<Rightarrow> int \<Rightarrow> string \<times> int" where
  \<comment> \<open>the loop of lines 306 to 315\<close>
  "add_sentences minWords maxWords [] summary wc = (summary, wc)"
| "add_sentences minWords maxWords (item # items) summary wc =
     (if wc + int (wordCount item) \<le> maxWords then
        (let summary' = summary @ '' '' @ sentence item; wc' = wc + int (wordCount item) in
         if wc' \<ge> minWords then (summary', wc')
         else add_sentences minWords maxWords items summary' wc')
      else add_sentences minWords maxWords items summary wc)"

definition summarize_scored :: "scored sorter \<Rightarrow> string list \<Rightarrow> int \<Rightarrow> int \<Rightarrow> string" where
  \<comment> \<open>lines 222 to 327: more than three sentences; \<open>engine_sort\<close> is the engine's sort\<close>
  "summarize_scored engine_sort sentences minWords maxWords =
     (let wordFreq = count_words sentences;
          sentenceScores = engine_sort by_score (map (score_sentence wordFreq) sentences);
          topSentences = map sentence (engine_sort (by_position sentences) (js_slice sentenceScores 0 5));
          joined = join '' '' topSentences;
          summary = (if int (word_count joined) > maxWords
                     then fst (fit_sentences minWords maxWords topSentences [] 0)
                     else joined);
          wc = int (word_count (trim summary));
          (summary, wc) =
            (if wc < minWords \<and> length sentences > length topSentences then
               add_sentences minWords maxWords
                 (engine_sort (by_position sentences) (js_slice (engine_sort by_score sentenceScores) 5 10))
                 summary wc
             else (summary, wc));
          summary =
            (if wc < minWords then
               (let firstSentence = (case topSentences of [] \<Rightarrow> [] | s # _ \<Rightarrow> s);
                    keyWords = js_slice (split_ws firstSentence) 0 (minWords - wc)
                in summary @ '' Additional context: '' @ join '' '' keyWords @ ''.'')
             else summary)
      in trim summary)"

definition summarize_try ::
  "tokenizer \<Rightarrow> scored sorter \<Rightarrow> string \<Rightarrow> int \<Rightarrow> int \<Rightarrow> string + string" where
  \<comment> \<open>the \<open>try\<close> block, lines 193 to 327: \<open>Inr\<close> the value returned, \<open>Inl\<close> the value of
      \<open>text\<close> when the tokenizer throws\<close>
  "summarize_try tokenize engine_sort text minWords maxWords =
     (if text = [] \<or> length text < 100 then
        (if text \<noteq> [] \<and> int (word_count text) < minWords then
           Inr (text @ '' '' @ join '' '' (js_slice (split_ws text) 0 (minWords - int (word_count text))))
         else Inr text)
      else
        (let text = trim (collapse_ws text) in
         case tokenize text of
           None \<Rightarrow> Inl text
         | Some sentences \<Rightarrow>
             if length sentences \<le> 3 then
               (let words = split_ws text in
                if int (length words) \<le> maxWords \<and> int (length words) \<ge> minWords then Inr text
                else if int (length words) < minWords then Inr (pad_words words minWords maxWords)
                else Inr (truncate_words words maxWords))
             else Inr (summarize_scored engine_sort sentences minWords maxWords)))"

definition summarizeText ::
  "tokenizer \<Rightarrow> scored sorter \<Rightarrow> string \<Rightarrow> int \<Rightarrow> int \<Rightarrow> console \<Rightarrow> string \<times> console" where
  "summarizeText tokenize engine_sort text minWords maxWords con =
     (case summarize_try tokenize engine_sort text minWords maxWords of
        Inr summary \<Rightarrow> (summary, con)
      | Inl text \<Rightarrow>
          (let words = split_ws text in
           (if int (length words) < minWords then pad_words words minWords maxWords
            else truncate_words words maxWords,
            con @ [''Error summarizing text:''])))"

text \<open>The default values of the parameters: \<open>minWords = 55, maxWords = 60\<close> (line 191).\<close>

definition summarizeText_args ::
  "tokenizer \<Rightarrow> scored sorter \<Rightarrow> string \<Rightarrow> int option \<Rightarrow> int option \<Rightarrow> console
     \<Rightarrow> string \<times> console" where
  "summarizeText_args tokenize engine_sort text minWords maxWords con =
     summarizeText tokenize engine_sort text
       (case minWords of None \<Rightarrow> 55 | Some m \<Rightarrow> m)
       (case maxWords of None \<Rightarrow> 60 | Some m \<Rightarrow> m) con"

section \<open>The feed normalizer\<close>

text \<open>
  The values the XML parser gives with \<open>explicitArray: false\<close>: an element with text
  only is a string (the empty string for an empty element); an element with attributes
  is an object whose \<open>$\<close> holds the attributes and whose \<open>_\<close> holds the text; an
  element without attributes but with children is an object without \<open>$\<close>; elements of
  one name that repeat are an array. The children of a value of a field are left out:
  the code reads only \<open>$\<close> and \<open>_\<close> of such a value, and calls on it methods that
  only a string has. An item is an element with children: an object, here the list of
  its children by name; an item that is a bare text is outside the model.
\<close>

datatype xval =
    Str string
  | Elem "(string \<times> string) list option" "string option"
  | Arr "xval list"

type_synonym item = "(string \<times> xval) list"

datatype error = TypeError | Failure string

datatype nullable = Null | Undefined | Defined string

definition fld :: "item \<Rightarrow> string \<Rightarrow> xval option" where
  \<comment> \<open>\<open>item.name\<close>; \<open>None\<close> is \<open>undefined\<close>\<close>
  "fld it name = map_of it name"

definition truthy :: "xval option \<Rightarrow> bool" where
  "truthy v = (case v of None \<Rightarrow> False | Some (Str s) \<Rightarrow> s \<noteq> [] | Some _ \<Rightarrow> True)"

definition or_else :: "xval option \<Rightarrow> xval option \<Rightarrow> xval option" where
  \<comment> \<open>\<open>a || b\<close>\<close>
  "or_else a b = (if truthy a then a else b)"

definition attrs_of :: "xval \<Rightarrow> (string \<times> string) list option" where
  \<comment> \<open>\<open>v.$\<close>\<close>
  "attrs_of v = (case v of Elem a t \<Rightarrow> a | _ \<Rightarrow> None)"


definition is_string :: "xval \<Rightarrow> bool" where
  \<comment> \<open>\<open>typeof v === 'string'\<close>\<close>
  "is_string v = (case v of Str s \<Rightarrow> True | _ \<Rightarrow> False)"

definition attr :: "(string \<times> string) list \<Rightarrow> string \<Rightarrow> nullable" where
  "attr as name = (case map_of as name of None \<Rightarrow> Undefined | Some v \<Rightarrow> Defined v)"

definition startsWith :: "string \<Rightarrow> string \<Rightarrow> bool" where
  "startsWith s p = (take (length p) s = p)"

definition includes_str :: "string \<Rightarrow> string \<Rightarrow> bool" where
  \<comment> \<open>\<open>s.includes(sub)\<close>\<close>
  "includes_str s sub = list_ex (\<lambda>i. startsWith (drop i s) sub) [0..<Suc (length s)]"

definition image_cond :: "xval option \<Rightarrow> error + bool" where
  \<comment> \<open>\<open>v && v.$.type?.startsWith('image/')\<close>\<close>
  "image_cond v =
     (if \<not> truthy v then Inr False
      else case Option.bind v attrs_of of
             None \<Rightarrow> Inl TypeError
           | Some as \<Rightarrow> (case map_of as ''type'' of
                          None \<Rightarrow> Inr False
                        | Some t \<Rightarrow> Inr (startsWith t ''image/'')))"

definition url_of :: "xval option \<Rightarrow> error + nullable" where
  \<comment> \<open>\<open>v.$.url\<close>\<close>
  "url_of v = (case Option.bind v attrs_of of None \<Rightarrow> Inl TypeError | Some as \<Rightarrow> Inr (attr as ''url''))"

text \<open>
  \<open>s.match(/<img[^>]+src="([^">]+)"/)\<close>, the first group: the match starts at the first
  \<open><img\<close> from which it succeeds; \<open>[^>]+\<close> is greedy, so of the places where \<open>src="\<close>
  can start the last one that succeeds is taken.
\<close>

definition src_at :: "string \<Rightarrow> string option" where
  "src_at u =
     (if startsWith u (''src='' @ [CHR 0x22]) then
        (let g = takeWhile (\<lambda>c. c \<noteq> CHR 0x22 \<and> c \<noteq> CHR ''>'') (drop 5 u) in
         if g \<noteq> [] \<and> startsWith (drop (5 + length g) u) [CHR 0x22] then Some g else None)
      else None)"

definition img_at :: "string \<Rightarrow> string option" where
  "img_at t =
     (if startsWith t ''<img'' then
        (let run = takeWhile (\<lambda>c. c \<noteq> CHR ''>'') (drop 4 t) in
         case filter (\<lambda>k. src_at (drop k run) \<noteq> None) (rev [1..<length run]) of
           [] \<Rightarrow> None
         | k # _ \<Rightarrow> src_at (drop k run))
      else None)"

definition img_match :: "string \<Rightarrow> string option" where
  "img_match s =
     (case filter (\<lambda>i. img_at (drop i s) \<noteq> None) [0..<length s] of
        [] \<Rightarrow> None
      | i # _ \<Rightarrow> img_at (drop i s))"

definition description_image :: "xval option \<Rightarrow> error + nullable" where
  \<comment> \<open>lines 47 to 53: a description that is an object has no method \<open>includes\<close>, and one
      that is an array has no method \<open>match\<close>\<close>
  "description_image d =
     (case d of
        None \<Rightarrow> Inr Null
      | Some (Str s) \<Rightarrow>
          if s \<noteq> [] \<and> includes_str s ''<img'' then
            (case img_match s of None \<Rightarrow> Inr Null | Some u \<Rightarrow> Inr (Defined u))
          else Inr Null
      | Some (Elem a t) \<Rightarrow> Inl TypeError
      | Some (Arr xs) \<Rightarrow> if Str ''<img'' \<in> set xs then Inl TypeError else Inr Null)"

definition resolve_image :: "item \<Rightarrow> error + nullable" where
  \<comment> \<open>lines 38 to 53\<close>
  "resolve_image it =
     (case image_cond (fld it ''enclosure'') of
        Inl e \<Rightarrow> Inl e
      | Inr True \<Rightarrow> url_of (fld it ''enclosure'')
      | Inr False \<Rightarrow>
          (case image_cond (fld it ''media:content'') of
             Inl e \<Rightarrow> Inl e
           | Inr True \<Rightarrow> url_of (fld it ''media:content'')
           | Inr False \<Rightarrow>
               if truthy (fld it ''media:thumbnail'') then url_of (fld it ''media:thumbnail'')
               else description_image (fld it ''description'')))"

fun to_string :: "xval \<Rightarrow> string" where
  \<comment> \<open>the string a template literal makes of a value\<close>
  "to_string (Str s) = s"
| "to_string (Elem a t) = ''[object Object]''"
| "to_string (Arr xs) = join '','' (map to_string xs)"

definition template :: "xval option \<Rightarrow> string" where
  "template v = (case v of None \<Rightarrow> ''undefined'' | Some x \<Rightarrow> to_string x)"

definition resolve_guid :: "string \<Rightarrow> item \<Rightarrow> xval" where
  \<comment> \<open>lines 56 to 66\<close>
  "resolve_guid url it =
     (let guid = fld it ''guid'';
          guid = (case guid of
                    Some (Elem a (Some t)) \<Rightarrow> if t \<noteq> [] then Some (Str t) else guid
                  | _ \<Rightarrow> guid);
          guid = (if \<not> truthy guid then
                    or_else (fld it ''id'')
                      (or_else (fld it ''link'')
                         (Some (Str (url @ ''-'' @ template (fld it ''title'') @ ''-''
                                       @ template (fld it ''pubDate'')))))
                  else guid)
      in case guid of Some g \<Rightarrow> g | None \<Rightarrow> Str [])"

definition resolve_link :: "item \<Rightarrow> nullable" where
  \<comment> \<open>lines 69 to 72\<close>
  "resolve_link it =
     (case fld it ''link'' of
        None \<Rightarrow> Undefined
      | Some (Str s) \<Rightarrow> Defined s
      | Some (Elem a t) \<Rightarrow> (case a of None \<Rightarrow> Defined ''#'' | Some as \<Rightarrow> attr as ''href'')
      | Some (Arr xs) \<Rightarrow> Defined ''#'')"

record canonical =
  guid :: xval
  title :: xval
  description :: xval
  link :: nullable
  pubDate :: xval
  imageUrl :: nullable
  source :: string
  sourceName :: xval

definition default_to :: "xval option \<Rightarrow> string \<Rightarrow> xval" where
  \<comment> \<open>\<open>v || 'literal'\<close>\<close>
  "default_to v lit = (if truthy v then (case v of Some x \<Rightarrow> x | None \<Rightarrow> Str lit) else Str lit)"

definition normalize_item :: "string \<Rightarrow> xval \<Rightarrow> item \<Rightarrow> error + canonical" where
  \<comment> \<open>the callback of \<open>itemsArray.map\<close>, lines 36 to 84\<close>
  "normalize_item url name it =
     (case resolve_image it of
        Inl e \<Rightarrow> Inl e
      | Inr img \<Rightarrow>
          Inr \<lparr> guid = resolve_guid url it,
                title = default_to (fld it ''title'') ''No Title'',
                description =
                  default_to (or_else (fld it ''description'') (fld it ''summary'')) ''No Description'',
                link = resolve_link it,
                pubDate =
                  default_to (or_else (fld it ''pubDate'')
                                (or_else (fld it ''published'') (fld it ''updated''))) ''No Date'',
                imageUrl = img,
                source = url,
                sourceName = name \<rparr>)"

fun map_items :: "('a \<Rightarrow> error + 'b) \<Rightarrow> 'a list \<Rightarrow> error + 'b list" where
  \<comment> \<open>\<open>xs.map(f)\<close> for a callback that can throw: the first error ends the map\<close>
  "map_items f [] = Inr []"
| "map_items f (x # xs) =
     (case f x of
        Inl e \<Rightarrow> Inl e
      | Inr y \<Rightarrow> (case map_items f xs of Inl e \<Rightarrow> Inl e | Inr ys \<Rightarrow> Inr (y # ys)))"

text \<open>
  The parsed document: the channel of an RSS document or the feed of an Atom document,
  with its title and its \<open>item\<close> or \<open>entry\<close> children, one item (an object) or several
  (an array).
\<close>

datatype entries = One item | Many "item list"

record channel =
  ch_title :: "xval option"
  ch_item :: "entries option"
  ch_entry :: "entries option"

record root =
  rss_channel :: "channel option"
  feed :: "channel option"

datatype feed_response = Unavailable string | Document root

definition channel_of :: "root \<Rightarrow> channel option" where
  \<comment> \<open>\<open>result.rss?.channel || result.feed\<close>, line 27\<close>
  "channel_of result = (case rss_channel result of Some c \<Rightarrow> Some c | None \<Rightarrow> feed result)"

definition items_of :: "channel \<Rightarrow> item list" where
  \<comment> \<open>lines 28 and 34\<close>
  "items_of ch =
     (case (case ch_item ch of Some e \<Rightarrow> Some e | None \<Rightarrow> ch_entry ch) of
        None \<Rightarrow> []
      | Some (One it) \<Rightarrow> [it]
      | Some (Many its) \<Rightarrow> its)"

definition fetch_try ::
  "(string \<Rightarrow> string option) \<Rightarrow> (string \<Rightarrow> feed_response) \<Rightarrow> string \<Rightarrow> error + canonical list" where
  \<comment> \<open>the \<open>try\<close> block of \<open>fetchRSSFeed\<close>, lines 22 to 84; \<open>hostname\<close> is
      \<open>new URL(url).hostname\<close>, \<open>None\<close> when the URL does not parse\<close>
  "fetch_try hostname get url =
     (case get url of
        Unavailable msg \<Rightarrow> Inl (Failure msg)
      | Document result \<Rightarrow>
          (case channel_of result of
             None \<Rightarrow> Inl TypeError
           | Some ch \<Rightarrow>
               (case (if truthy (ch_title ch) then Some (default_to (ch_title ch) [])
                      else map_option Str (hostname url)) of
                  None \<Rightarrow> Inl TypeError
                | Some name \<Rightarrow> map_items (normalize_item url name) (items_of ch))))"

definition fetchRSSFeed ::
  "(string \<Rightarrow> string option) \<Rightarrow> (string \<Rightarrow> feed_response) \<Rightarrow> string \<Rightarrow> canonical list" where
  \<comment> \<open>lines 20 to 89: every error is caught and the source gives no item\<close>
  "fetchRSSFeed hostname get url =
     (case fetch_try hostname get url of Inl e \<Rightarrow> [] | Inr its \<Rightarrow> its)"

section \<open>The content extractor\<close>

text \<open>
  The HTML library is not part of the repository. A page is what the queries of
  \<open>extractArticleContent\<close> give on it once the non-content elements are removed: for
  each selector that matches at least one element, the texts of the paragraphs inside
  the matched elements; the texts of all paragraphs of the document; the text of the
  body.
\<close>

record page =
  selected :: "(string \<times> string list) list"
  paragraphs :: "string list"
  body :: string

datatype fetched = Failed string | Loaded page

definition possibleSelectors :: "string list" where
  \<comment> \<open>lines 113 to 126\<close>
  "possibleSelectors =
     [''article'',
      ''[role='' @ [CHR 0x22] @ ''main'' @ [CHR 0x22] @ '']'',
      ''main'',
      ''.article-content'',
      ''.story-content'',
      ''.main-content'',
      ''.post-content'',
      ''#content-body'',
      ''.content'',
      ''.entry-content'',
      ''.story-body'',
      ''#article-body'']"

definition matches :: "page \<Rightarrow> string \<Rightarrow> bool" where
  \<comment> \<open>\<open>$(selector).length > 0\<close>\<close>
  "matches pg selector = (map_of (selected pg) selector \<noteq> None)"

fun first_matching :: "string list \<Rightarrow> page \<Rightarrow> string option" where
  \<comment> \<open>the loop of lines 131 to 137 over a list of selectors\<close>
  "first_matching [] pg = None"
| "first_matching (selector # rest) pg =
     (if matches pg selector then Some selector else first_matching rest pg)"

definition paragraph_texts :: "string list \<Rightarrow> string list" where
  \<comment> \<open>lines 144 to 149 and 159 to 164\<close>
  "paragraph_texts ps = filter (\<lambda>t. t \<noteq> [] \<and> length t > 20) (map trim ps)"

definition blank_line :: string where
  "blank_line = [CHR 0x0A, CHR 0x0A]"

definition extract_page :: "string \<Rightarrow> page \<Rightarrow> string" where
  \<comment> \<open>lines 110 to 183\<close>
  "extract_page url pg =
     (let articleContent =
            (case first_matching possibleSelectors pg of
               None \<Rightarrow> []
             | Some selector \<Rightarrow>
                 join blank_line
                   (paragraph_texts (case map_of (selected pg) selector of None \<Rightarrow> [] | Some ps \<Rightarrow> ps)));
          articleContent =
            (if articleContent = [] \<or> length articleContent < 200 then
               (let significantParagraphs =
                      filter (\<lambda>p. length p > 30) (paragraph_texts (paragraphs pg))
                in if length significantParagraphs > 0 then join blank_line significantParagraphs
                   else articleContent)
             else articleContent)
      in if articleContent \<noteq> [] \<and> length articleContent > 150 then articleContent
         else (let bodyText = collapse_ws (trim (body pg)) in
               if length bodyText > 200 then bodyText
               else ''Could not extract meaningful content from '' @ url @ ''.''))"

definition extractArticleContent :: "(string \<Rightarrow> fetched) \<Rightarrow> string \<Rightarrow> string" where
  \<comment> \<open>lines 92 to 188: an error is caught and its message returned as the content\<close>
  "extractArticleContent get url =
     (case get url of
        Failed message \<Rightarrow> ''Error extracting content: '' @ message
      | Loaded pg \<Rightarrow> extract_page url pg)"

text \<open>
  The order in which the specification lists the selectors, for comparison with
  \<open>possibleSelectors\<close>.
\<close>

definition listed_selectors :: "string list" where
  "listed_selectors =
     [''article'',
      ''[role='' @ [CHR 0x22] @ ''main'' @ [CHR 0x22] @ '']'',
      ''main'',
      ''.article-content'',
      ''.story-content'',
      ''.post-content'',
      ''.entry-content'',
      ''.story-body'',
      ''#article-body'',
      ''.content'',
      ''#content-body'',
      ''.main-content'']"

section \<open>The batch pipeline\<close>

text \<open>
  An object literal of the routes is the list of its keys and values. The console
  output of the routes, the pause between two batches and the time stamp of the
  response are not modelled.
\<close>

datatype jsv = JUndefined | JNull | JVal xval

type_synonym object = "(string \<times> jsv) list"

definition of_nullable :: "nullable \<Rightarrow> jsv" where
  "of_nullable n = (case n of Null \<Rightarrow> JNull | Undefined \<Rightarrow> JUndefined | Defined s \<Rightarrow> JVal (Str s))"

definition rssFeeds :: "string list" where
  "rssFeeds =
     [''https://rss.nytimes.com/services/xml/rss/nyt/World.xml'',
      ''https://feeds.bbci.co.uk/news/rss.xml'',
      ''https://moxie.foxnews.com/google-publisher/latest.xml'']"

definition processed_item :: "canonical \<Rightarrow> string \<Rightarrow> object" where
  \<comment> \<open>the object literal of lines 378 to 386, 389 to 397, 400 to 408 and 456 to 464\<close>
  "processed_item it summary =
     [(''guid'', JVal (guid it)),
      (''title'', JVal (title it)),
      (''description'', JVal (description it)),
      (''summarized_content'', JVal (Str summary)),
      (''imageUrl'', of_nullable (imageUrl it)),
      (''sourceName'', JVal (sourceName it)),
      (''pubDate'', JVal (pubDate it))]"

definition spread_item :: "canonical \<Rightarrow> string \<Rightarrow> object" where
  \<comment> \<open>\<open>{...item, summarized_content: summary}\<close>, lines 466 to 469 and 473 to 476\<close>
  "spread_item it summary =
     [(''guid'', JVal (guid it)),
      (''title'', JVal (title it)),
      (''description'', JVal (description it)),
      (''link'', of_nullable (link it)),
      (''pubDate'', JVal (pubDate it)),
      (''imageUrl'', of_nullable (imageUrl it)),
      (''source'', JVal (Str (source it))),
      (''sourceName'', JVal (sourceName it)),
      (''summarized_content'', JVal (Str summary))]"

definition resolvable :: "nullable \<Rightarrow> string option" where
  \<comment> \<open>\<open>item.link && item.link !== '#'\<close>\<close>
  "resolvable l = (case l of Defined s \<Rightarrow> if s \<noteq> [] \<and> s \<noteq> ''#'' then Some s else None | _ \<Rightarrow> None)"

definition summarize_value ::
  "tokenizer \<Rightarrow> scored sorter \<Rightarrow> xval \<Rightarrow> int option \<Rightarrow> int option \<Rightarrow> error + string" where
  \<comment> \<open>\<open>summarizeText\<close> on a value of a feed: on an object or an array \<open>text.replace\<close> or
      \<open>text.split\<close> is not a function, and the \<open>catch\<close> block of \<open>summarizeText\<close> throws
      again at \<open>text.split\<close>\<close>
  "summarize_value tokenize engine_sort v minWords maxWords =
     (case v of
        Str s \<Rightarrow> Inr (fst (summarizeText_args tokenize engine_sort s minWords maxWords []))
      | _ \<Rightarrow> Inl TypeError)"

definition process_item ::
  "tokenizer \<Rightarrow> scored sorter \<Rightarrow> (string \<Rightarrow> fetched) \<Rightarrow> canonical \<Rightarrow> error + object" where
  \<comment> \<open>the callback of \<open>batch.map\<close>, lines 369 to 410\<close>
  "process_item tokenize engine_sort get it =
     (case resolvable (link it) of
        Some url \<Rightarrow>
          (case (let content = extractArticleContent get url
                 in summarize_value tokenize engine_sort (Str content) (Some 60) None) of
             Inr summary \<Rightarrow> Inr (processed_item it summary)
           | Inl e \<Rightarrow>
               (case summarize_value tokenize engine_sort
                       (default_to (Some (description it)) ''Summarization failed.'') (Some 60) None of
                  Inr summary \<Rightarrow> Inr (processed_item it summary)
                | Inl e' \<Rightarrow> Inl e'))
      | None \<Rightarrow>
          (case summarize_value tokenize engine_sort
                  (default_to (Some (description it)) ''No content to summarize.'') (Some 60) None of
             Inr summary \<Rightarrow> Inr (processed_item it summary)
           | Inl e \<Rightarrow> Inl e))"

text \<open>
  \<open>Promise.all\<close>: the promises of a batch settle in some order, given here as the list
  of their positions. A fulfilled promise writes its value into the slot of its
  position; the first rejection rejects the whole; the result is there once every slot
  is filled, and \<open>None\<close> says that it never is.
\<close>

fun settle :: "nat list \<Rightarrow> (error + 'a) list \<Rightarrow> 'a option list \<Rightarrow> (error + 'a list) option" where
  "settle [] results slots =
     (if None \<in> set slots then None else Some (Inr (map the slots)))"
| "settle (i # order) results slots =
     (if i < length results then
        (case results ! i of
           Inl e \<Rightarrow> Some (Inl e)
         | Inr v \<Rightarrow> settle order results (slots[i := Some v]))
      else settle order results slots)"

definition promise_all :: "nat list \<Rightarrow> (error + 'a) list \<Rightarrow> (error + 'a list) option" where
  "promise_all order results = settle order results (replicate (length results) None)"

definition batchSize :: nat where
  "batchSize = 3"

function process_batches ::
  "(nat \<Rightarrow> nat list) \<Rightarrow> ('a \<Rightarrow> error + 'b) \<Rightarrow> 'a list \<Rightarrow> nat \<Rightarrow> 'b list \<Rightarrow> (error + 'b list) option" where
  \<comment> \<open>the loop of lines 365 to 420; \<open>order i\<close> is the order in which the promises of the
      batch that starts at \<open>i\<close> settle\<close>
  "process_batches order f allItems i processedItems =
     (if i < length allItems then
        (let batch = js_slice allItems (int i) (int (i + batchSize)) in
         case promise_all (order i) (map f batch) of
           None \<Rightarrow> None
         | Some (Inl e) \<Rightarrow> Some (Inl e)
         | Some (Inr batchResults) \<Rightarrow>
             process_batches order f allItems (i + batchSize) (processedItems @ batchResults))
      else Some (Inr processedItems))"
  by pat_completeness auto
termination
  by (relation "measure (\<lambda>(order, f, allItems, i, processedItems). length allItems - i)")
     (auto simp: batchSize_def)

declare process_batches.simps [simp del]

definition by_date :: "(xval \<Rightarrow> int option) \<Rightarrow> canonical \<Rightarrow> canonical \<Rightarrow> rat" where
  \<comment> \<open>lines 355 to 359; \<open>parse\<close> is the time value of \<open>new Date(pubDate)\<close>, \<open>None\<close> for an
      invalid date\<close>
  "by_date parse a b =
     (case (parse (pubDate a), parse (pubDate b)) of
        (Some dateA, Some dateB) \<Rightarrow> of_int (dateB - dateA)
      | _ \<Rightarrow> 0)"

datatype all_response = Items "object list" | Failed500

definition process_all ::
  "(string \<Rightarrow> string option) \<Rightarrow> tokenizer \<Rightarrow> scored sorter \<Rightarrow> canonical sorter
     \<Rightarrow> (string \<Rightarrow> feed_response) \<Rightarrow> (string \<Rightarrow> fetched)
     \<Rightarrow> (xval \<Rightarrow> int option) \<Rightarrow> (nat \<Rightarrow> nat list) \<Rightarrow> all_response option" where
  \<comment> \<open>the route \<open>/feeds/all\<close>, lines 342 to 431; \<open>engine_sort\<close> and \<open>sort_items\<close> are the
      engine's sort, on the scored sentences and on the items\<close>
  "process_all hostname tokenize engine_sort sort_items feeds articles parse order =
     (let allItems = concat (map (fetchRSSFeed hostname feeds) rssFeeds);
          allItems = sort_items (by_date parse) allItems
      in case process_batches order (process_item tokenize engine_sort articles) allItems 0 [] of
           None \<Rightarrow> None
         | Some (Inl e) \<Rightarrow> Some Failed500
         | Some (Inr processedItems) \<Rightarrow> Some (Items processedItems))"

text \<open>
  The answer of the route \<open>/feeds/item/:guid\<close>: \<open>Json obj\<close> is \<open>res.json(obj)\<close>, the others
  are the statuses 404 and 500. The body that \<open>res.json\<close> sends is the JSON text of the
  object, which leaves out every property whose value is \<open>undefined\<close> and keeps \<open>null\<close>.
\<close>

datatype response = Json object | NotFound | ServerError

definition response_body :: "object \<Rightarrow> object" where
  "response_body obj = filter (\<lambda>(key, v). v \<noteq> JUndefined) obj"

definition body_keys :: "response \<Rightarrow> string list option" where
  \<comment> \<open>the keys of the body of an answer, \<open>None\<close> for an error status\<close>
  "body_keys r = (case r of Json obj \<Rightarrow> Some (map fst (response_body obj)) | _ \<Rightarrow> None)"

definition process_one ::
  "(string \<Rightarrow> string option) \<Rightarrow> tokenizer \<Rightarrow> scored sorter
     \<Rightarrow> (string \<Rightarrow> feed_response) \<Rightarrow> (string \<Rightarrow> fetched) \<Rightarrow> string \<Rightarrow> response" where
  \<comment> \<open>the route \<open>/feeds/item/:guid\<close>, lines 434 to 485\<close>
  "process_one hostname tokenize engine_sort feeds articles g =
     (let allItems = concat (map (fetchRSSFeed hostname feeds) rssFeeds) in
      case find (\<lambda>it. guid it = Str g) allItems of
        None \<Rightarrow> NotFound
      | Some it \<Rightarrow>
          (case (case resolvable (link it) of
                   Some url \<Rightarrow>
                     (case (let content = extractArticleContent articles url
                            in summarize_value tokenize engine_sort (Str content) (Some 60) None) of
                        Inr summary \<Rightarrow> Inr (processed_item it summary)
                      | Inl e \<Rightarrow> Inl e)
                 | None \<Rightarrow>
                     (case summarize_value tokenize engine_sort (description it) (Some 60) None of
                        Inr summary \<Rightarrow> Inr (spread_item it summary)
                      | Inl e \<Rightarrow> Inl e)) of
             Inr obj \<Rightarrow> Json obj
           | Inl e \<Rightarrow>
               (case summarize_value tokenize engine_sort (description it) (Some 60) None of
                  Inr summary \<Rightarrow> Json (spread_item it summary)
                | Inl e' \<Rightarrow> ServerError)))"

section \<open>Concrete inputs\<close>

text \<open>
  A sort for the concrete inputs below: the insertion sort from the right, which is
  stable. It is used only where the summarizer does not sort at all, or where the
  comparator answers \<open>0\<close> for every pair, so that every conforming sort leaves the list
  as it is.
\<close>

fun insert_by :: "('a \<Rightarrow> 'a \<Rightarrow> rat) \<Rightarrow> 'a \<Rightarrow> 'a list \<Rightarrow> 'a list" where
  "insert_by cmp x [] = [x]"
| "insert_by cmp x (y # ys) = (if cmp x y \<le> 0 then x # y # ys else y # insert_by cmp x ys)"

definition stable_sort :: "'a sorter" where
  "stable_sort cmp xs = foldr (insert_by cmp) xs []"

text \<open>
  A tokenizer for the concrete inputs below: it takes the whole text as one sentence.
\<close>

definition whole_text :: tokenizer where
  "whole_text t = Some [t]"

text \<open>
  A page on which both \<open>.post-content\<close> and \<open>.main-content\<close> match, each holding one
  paragraph of 210 characters.
\<close>

definition two_containers :: page where
  "two_containers =
     \<lparr> selected = [(''.post-content'', [replicate 210 (CHR ''b'')]),
                    (''.main-content'', [replicate 210 (CHR ''a'')])],
       paragraphs = [replicate 210 (CHR ''b''), replicate 210 (CHR ''a'')],
       body = replicate 210 (CHR ''b'') @ replicate 210 (CHR ''a'') \<rparr>"

text \<open>
  Concrete inputs: an item with an image enclosure, an RSS document with a title for any
  list of items, and a \<open>hostname\<close> that is never needed because the channel has a title.
\<close>

definition sample_item :: item where
  "sample_item =
     [(''title'', Str ''Budget passed''),
      (''link'', Str ''http://a/1''),
      (''guid'', Str ''a-1''),
      (''enclosure'', Elem (Some [(''type'', ''image/png''), (''url'', ''http://a/1.png'')]) None)]"

definition sample_feed :: "item list \<Rightarrow> string \<Rightarrow> feed_response" where
  "sample_feed its url =
     Document \<lparr> rss_channel = Some \<lparr> ch_title = Some (Str ''Feed''),
                                       ch_item = Some (Many its),
                                       ch_entry = None \<rparr>,
                feed = None \<rparr>"

definition no_hostname :: "string \<Rightarrow> string option" where
  "no_hostname url = None"

text \<open>
  Concrete inputs of the pipeline: a network on which every article times out, an item
  with a link, and an item without a link whose description has thirty words.
\<close>

definition offline :: "string \<Rightarrow> fetched" where
  "offline url = Failed ''timeout of 15000ms exceeded''"

definition linked_item :: canonical where
  "linked_item =
     \<lparr> guid = Str ''a-1'',
       title = Str ''Budget passed'',
       description = Str ''Parliament passed the budget on Tuesday.'',
       link = Defined ''http://a/1'',
       pubDate = Str ''Tue, 07 May 2024 10:00:00 GMT'',
       imageUrl = Null,
       source = ''http://feed'',
       sourceName = Str ''Feed'' \<rparr>"

definition thirty_words :: string where
  "thirty_words = ''a b c d e f g h i j k l m n o p q r s t u v w x y z A B C D''"

definition unlinked_item :: canonical where
  "unlinked_item =
     \<lparr> guid = Str ''a-2'',
       title = Str ''Alphabet'',
       description = Str thirty_words,
       link = Undefined,
       pubDate = Str ''No Date'',
       imageUrl = Null,
       source = ''http://feed'',
       sourceName = Str ''Feed'' \<rparr>"

text \<open>
  The feeds of a run: the second source answers with the given items, the others fail.
\<close>

definition sample_world :: "item list \<Rightarrow> string \<Rightarrow> feed_response" where
  "sample_world its url =
     (if url = ''https://feeds.bbci.co.uk/news/rss.xml'' then sample_feed its url
      else Unavailable ''Network Error'')"

text \<open>
  The same with an Atom document of one entry; an entry without a link, and an entry with
  two link elements, which the parser gives as an array.
\<close>

definition atom_world :: "item \<Rightarrow> string \<Rightarrow> feed_response" where
  "atom_world entry url =
     (if url = ''https://feeds.bbci.co.uk/news/rss.xml'' then
        Document \<lparr> rss_channel = None,
                   feed = Some \<lparr> ch_title = Some (Str ''Feed''),
                                  ch_item = None,
                                  ch_entry = Some (One entry) \<rparr> \<rparr>
      else Unavailable ''Network Error'')"

definition plain_entry :: item where
  "plain_entry =
     [(''id'', Str ''a-3''),
      (''title'', Str ''Weather''),
      (''summary'', Str ''Rain is expected.'')]"

definition two_links_entry :: item where
  "two_links_entry =
     [(''id'', Str ''a-4''),
      (''title'', Str ''Weather''),
      (''summary'', Str ''Rain is expected.''),
      (''link'', Arr [Elem (Some [(''rel'', ''alternate''), (''href'', ''http://a/4'')]) None,
                      Elem (Some [(''rel'', ''self''), (''href'', ''http://a/4.xml'')]) None])]"

text \<open>
  Concrete inputs: a feed of seven items numbered in document order, dates that do not
  parse, and batches whose third promise settles first.
\<close>

definition numbered :: "string \<Rightarrow> item" where
  "numbered n =
     [(''guid'', Str n),
      (''title'', Str (''Story '' @ n)),
      (''link'', Str (''http://a/'' @ n)),
      (''description'', Str ''Text'')]"

definition seven_items :: "item list" where
  "seven_items = map numbered [''1'', ''2'', ''3'', ''4'', ''5'', ''6'', ''7'']"

definition no_dates :: "xval \<Rightarrow> int option" where
  "no_dates v = None"

definition third_first :: "nat \<Rightarrow> nat list" where
  "third_first i = [2, 0, 1]"

section \<open>Splitting and joining\<close>

lemma split_on_nonempty: "split_on P s \<noteq> []"
  by (subst split_on.simps) (simp add: Let_def)

lemma split_on_no_sep:
  assumes "\<forall>x\<in>set s. \<not> P x"
  shows "split_on P s = [s]"
  using assms by (subst split_on.simps) (simp add: Let_def)

lemma split_on_sep:
  assumes "dropWhile (\<lambda>c. \<not> P c) s \<noteq> []"
  shows "split_on P s
     = takeWhile (\<lambda>c. \<not> P c) s # split_on P (dropWhile P (dropWhile (\<lambda>c. \<not> P c) s))"
  by (subst split_on.simps) (simp only: Let_def assms if_False)

lemma last_dropWhile: "dropWhile P xs \<noteq> [] \<Longrightarrow> last (dropWhile P xs) = last xs"
  by (induction xs) (auto split: if_splits)

lemma split_on_append:
  assumes "P c" and "b = [] \<or> \<not> P (hd b)" and "a = [] \<or> \<not> P (last a)"
  shows "split_on P (a @ c # b) = split_on P a @ split_on P b"
  using assms
proof (induction P a rule: split_on.induct)
  case (1 P s)
  define w where "w = takeWhile (\<lambda>c. \<not> P c) s"
  define r where "r = dropWhile (\<lambda>c. \<not> P c) s"
  have s: "s = w @ r" by (simp add: w_def r_def)
  have dropb: "dropWhile P b = b" using "1.prems"(2) by (cases b) auto
  show ?case
  proof (cases "r = []")
    case True
    then have nosep: "\<forall>x\<in>set s. \<not> P x" by (simp add: r_def)
    have tw: "takeWhile (\<lambda>c. \<not> P c) (s @ c # b) = s"
      using nosep "1.prems"(1) by (simp add: takeWhile_append2)
    have dw: "dropWhile (\<lambda>c. \<not> P c) (s @ c # b) = c # b"
      using nosep "1.prems"(1) by (simp add: dropWhile_append2)
    have "split_on P (s @ c # b) = s # split_on P b"
      using split_on_sep [of P "s @ c # b"] by (simp add: tw dw "1.prems"(1) dropb)
    then show ?thesis by (simp add: split_on_no_sep [OF nosep])
  next
    case False
    then obtain x where x: "x \<in> set s" "P x" by (auto simp: r_def)
    have sne: "s \<noteq> []" using x by auto
    with "1.prems"(3) have lasts: "\<not> P (last s)" by simp
    have "last s = last r" using False s by simp
    with lasts have lastr: "\<not> P (last r)" by simp
    have "last r \<in> set r" using False by simp
    with lastr obtain y where y: "y \<in> set r" "\<not> P y" by blast
    then have d1: "dropWhile P r \<noteq> []" by auto
    from d1 have "last (dropWhile P r) = last r" by (rule last_dropWhile)
    with lastr have d2: "\<not> P (last (dropWhile P r))" by simp
    have tw: "takeWhile (\<lambda>c. \<not> P c) (s @ c # b) = w"
      using takeWhile_append1 [of x s "\<lambda>c. \<not> P c" "c # b"] x by (simp add: w_def)
    have dw: "dropWhile (\<lambda>c. \<not> P c) (s @ c # b) = r @ c # b"
      using dropWhile_append1 [of x s "\<lambda>c. \<not> P c" "c # b"] x by (simp add: r_def)
    have dw2: "dropWhile P (r @ c # b) = dropWhile P r @ c # b"
      using dropWhile_append1 [of y r P "c # b"] y by simp
    have IH: "split_on P (dropWhile P r @ c # b) = split_on P (dropWhile P r) @ split_on P b"
      using "1.IH" [OF w_def r_def False "1.prems"(1) "1.prems"(2)] d2 by simp
    have ne: "dropWhile (\<lambda>c. \<not> P c) (s @ c # b) \<noteq> []" unfolding dw by simp
    have A: "split_on P (s @ c # b) = w # split_on P (dropWhile P r @ c # b)"
      unfolding split_on_sep [OF ne] tw dw dw2 ..
    have ne': "dropWhile (\<lambda>c. \<not> P c) s \<noteq> []" using False unfolding r_def .
    have B: "split_on P s = w # split_on P (dropWhile P r)"
      unfolding split_on_sep [OF ne'] w_def r_def ..
    show ?thesis unfolding A B IH by (rule append_Cons [symmetric])
  qed
qed

lemma split_on_words_free: "w \<in> set (split_on P s) \<Longrightarrow> \<forall>c\<in>set w. \<not> P c"
proof (induction P s rule: split_on.induct)
  case (1 P s)
  show ?case
  proof (cases "dropWhile (\<lambda>c. \<not> P c) s = []")
    case True
    then have "\<forall>x\<in>set s. \<not> P x" by simp
    then have "split_on P s = [s]" by (rule split_on_no_sep)
    with "1.prems" \<open>\<forall>x\<in>set s. \<not> P x\<close> show ?thesis by simp
  next
    case False
    from "1.prems" have "w = takeWhile (\<lambda>c. \<not> P c) s
        \<or> w \<in> set (split_on P (dropWhile P (dropWhile (\<lambda>c. \<not> P c) s)))"
      by (simp add: split_on_sep [OF False])
    then show ?thesis
    proof
      assume eq: "w = takeWhile (\<lambda>c. \<not> P c) s"
      show ?thesis
      proof
        fix c assume "c \<in> set w"
        then have "c \<in> set (takeWhile (\<lambda>c. \<not> P c) s)" by (simp only: eq)
        from set_takeWhileD [OF this] show "\<not> P c" by simp
      qed
    next
      assume "w \<in> set (split_on P (dropWhile P (dropWhile (\<lambda>c. \<not> P c) s)))"
      then show ?thesis by (rule "1.IH" [OF refl refl False])
    qed
  qed
qed

lemma split_on_empty_word:
  "[] \<in> set (split_on P s) \<Longrightarrow> s = [] \<or> P (hd s) \<or> P (last s)"
proof (induction P s rule: split_on.induct)
  case (1 P s)
  define w where "w = takeWhile (\<lambda>c. \<not> P c) s"
  define r where "r = dropWhile (\<lambda>c. \<not> P c) s"
  have s: "s = w @ r" by (simp add: w_def r_def)
  show ?case
  proof (cases "r = []")
    case True
    then have "\<forall>x\<in>set s. \<not> P x" by (simp add: r_def)
    then have "split_on P s = [s]" by (rule split_on_no_sep)
    with "1.prems" show ?thesis by simp
  next
    case False
    then have F: "dropWhile (\<lambda>c. \<not> P c) s \<noteq> []" by (simp add: r_def)
    from "1.prems" have "w = [] \<or> [] \<in> set (split_on P (dropWhile P r))"
      by (auto simp add: split_on_sep [OF F] w_def r_def)
    then show ?thesis
    proof
      assume "w = []"
      then have "s = r" using s by simp
      moreover have "P (hd r)" using F hd_dropWhile [of "\<lambda>c. \<not> P c" s] by (simp add: r_def)
      ultimately show ?thesis by simp
    next
      assume "[] \<in> set (split_on P (dropWhile P r))"
      from "1.IH" [OF w_def r_def False this]
      have d: "dropWhile P r = [] \<or> P (hd (dropWhile P r)) \<or> P (last (dropWhile P r))" .
      have nohd: "dropWhile P r \<noteq> [] \<Longrightarrow> \<not> P (hd (dropWhile P r))"
        by (rule hd_dropWhile)
      have lastr: "last s = last r" using False s by simp
      show ?thesis
      proof (cases "dropWhile P r = []")
        case True
        then have "\<forall>x\<in>set r. P x" by simp
        then have "P (last r)" using False by simp
        then show ?thesis using lastr by simp
      next
        case F2: False
        with d nohd have "P (last (dropWhile P r))" by blast
        moreover have "last (dropWhile P r) = last r" using F2 by (rule last_dropWhile)
        ultimately show ?thesis using lastr by simp
      qed
    qed
  qed
qed

lemma join_Cons: "ws \<noteq> [] \<Longrightarrow> join sep (w # ws) = w @ sep @ join sep ws"
  by (cases ws) auto

lemma hd_join: "ws \<noteq> [] \<Longrightarrow> hd ws \<noteq> [] \<Longrightarrow> hd (join sep ws) = hd (hd ws)"
  by (induction sep ws rule: join.induct) auto

lemma join_nonempty: "ws \<noteq> [] \<Longrightarrow> hd ws \<noteq> [] \<Longrightarrow> join sep ws \<noteq> []"
  by (induction sep ws rule: join.induct) auto

lemma split_on_join:
  assumes "P c" and "ws \<noteq> []" and "\<forall>w\<in>set ws. w \<noteq> [] \<and> (\<forall>x\<in>set w. \<not> P x)"
  shows "split_on P (join [c] ws) = ws"
  using assms(2,3)
proof (induction ws)
  case Nil
  then show ?case by simp
next
  case (Cons w ws)
  show ?case
  proof (cases "ws = []")
    case True
    then show ?thesis using Cons.prems by (simp add: split_on_no_sep)
  next
    case False
    have w: "w \<noteq> []" "\<forall>x\<in>set w. \<not> P x" using Cons.prems by auto
    from False obtain v vs where vs: "ws = v # vs" by (cases ws) auto
    have hdws: "hd ws \<noteq> []" "\<not> P (hd (hd ws))" using vs Cons.prems by auto
    have b: "\<not> P (hd (join [c] ws))" using hd_join [OF False hdws(1)] hdws(2) by simp
    have a: "\<not> P (last w)" using w by simp
    have "split_on P (join [c] (w # ws)) = split_on P (w @ c # join [c] ws)"
      using False by (simp add: join_Cons)
    also have "\<dots> = split_on P w @ split_on P (join [c] ws)"
      using split_on_append [of P c "join [c] ws" w] a b assms(1) by simp
    also have "\<dots> = w # ws"
      using Cons.IH False Cons.prems w by (simp add: split_on_no_sep)
    finally show ?thesis .
  qed
qed

section \<open>Properties of the summarizer\<close>

lemma js_slice_prefix: "0 \<le> k \<Longrightarrow> js_slice xs 0 k = take (nat k) xs"
  by (simp add: js_slice_def Let_def min_def)

lemma short_text_output:
  assumes "text \<noteq> []" and "length text < 100" and "int (word_count text) < minWords"
  shows "fst (summarizeText tokenize engine_sort text minWords maxWords con)
     = text @ '' '' @ join '' '' (take (nat (minWords - int (word_count text))) (split_ws text))"
  using assms by (simp add: summarizeText_def summarize_try_def js_slice_prefix)

lemma is_space_blank: "is_space CHR '' ''"
  by (simp add: is_space_def)

lemma padded_word_count:
  assumes ne: "text \<noteq> []" and hd: "\<not> is_space (hd text)" and lst: "\<not> is_space (last text)"
    and k: "0 < k"
  shows "split_ws (text @ '' '' @ join '' '' (take k (split_ws text)))
     = split_ws text @ take k (split_ws text)"
proof -
  let ?ws = "split_ws text"
  have free: "\<forall>w\<in>set ?ws. w \<noteq> [] \<and> (\<forall>x\<in>set w. \<not> is_space x)"
  proof
    fix w assume w: "w \<in> set ?ws"
    have "w \<noteq> []"
    proof
      assume "w = []"
      with w have "[] \<in> set (split_on is_space text)" by (simp add: split_ws_def)
      from split_on_empty_word [OF this] ne hd lst show False by simp
    qed
    moreover have "\<forall>x\<in>set w. \<not> is_space x"
      using split_on_words_free [of w is_space "text"] w by (simp add: split_ws_def)
    ultimately show "w \<noteq> [] \<and> (\<forall>x\<in>set w. \<not> is_space x)" by simp
  qed
  have wsne: "?ws \<noteq> []" by (simp add: split_ws_def split_on_nonempty)
  let ?p = "take k ?ws"
  have pne: "?p \<noteq> []" using wsne k by (cases ?ws; cases k) auto
  have pfree: "\<forall>w\<in>set ?p. w \<noteq> [] \<and> (\<forall>x\<in>set w. \<not> is_space x)"
    using free by (meson in_set_takeD)
  have hdp: "hd ?p \<noteq> []" "\<not> is_space (hd (hd ?p))"
    using pne pfree by (cases ?p; auto)+
  have "\<not> is_space (hd (join '' '' ?p))"
    using hd_join [OF pne hdp(1)] hdp(2) by simp
  then have "split_on is_space (text @ CHR '' '' # join '' '' ?p)
      = split_on is_space text @ split_on is_space (join '' '' ?p)"
    using split_on_append [of is_space "CHR '' ''" "join '' '' ?p" "text"] lst is_space_blank
    by simp
  moreover have "split_on is_space (join '' '' ?p) = ?p"
    using split_on_join [of is_space "CHR '' ''" ?p] is_space_blank pne pfree by simp
  ultimately show ?thesis by (simp add: split_ws_def)
qed

text \<open>
  Claim C6, as amended. For a non-empty text shorter than 100 characters with fewer than
  \<open>minWords\<close> words, the summarizer appends to the text, once, a space and the first
  \<open>minWords - wordCount\<close> of its own words joined by spaces: all of them when the text
  has fewer words than that. When the text neither starts nor ends with white space the
  output has \<open>min (2 * wordCount) minWords\<close> words, so it reaches \<open>minWords\<close> only when
  the text has at least half of \<open>minWords\<close>.
\<close>

theorem short_text_padding:
  assumes "text \<noteq> []" and "length text < 100" and "int (word_count text) < minWords"
  shows "fst (summarizeText tokenize engine_sort text minWords maxWords con)
           = text @ '' '' @ join '' '' (take (nat (minWords - int (word_count text))) (split_ws text))
         \<and> (\<not> is_space (hd text) \<and> \<not> is_space (last text) \<longrightarrow>
              int (word_count (fst (summarizeText tokenize engine_sort text minWords maxWords con)))
                = min (2 * int (word_count text)) minWords)"
proof (intro conjI impI)
  show out: "fst (summarizeText tokenize engine_sort text minWords maxWords con)
     = text @ '' '' @ join '' '' (take (nat (minWords - int (word_count text))) (split_ws text))"
    using assms by (rule short_text_output)
  assume trimmed: "\<not> is_space (hd text) \<and> \<not> is_space (last text)"
  let ?k = "nat (minWords - int (word_count text))"
  have k: "0 < ?k" using assms(3) by simp
  have "split_ws (text @ '' '' @ join '' '' (take ?k (split_ws text)))
          = split_ws text @ take ?k (split_ws text)"
    using padded_word_count [OF assms(1) _ _ k] trimmed by simp
  then have "word_count (text @ '' '' @ join '' '' (take ?k (split_ws text)))
          = word_count text + min (word_count text) ?k"
    by (simp add: word_count_def)
  then show "int (word_count (fst (summarizeText tokenize engine_sort text minWords maxWords con)))
                = min (2 * int (word_count text)) minWords"
    using assms(3) by (simp only: out)
qed

text \<open>The padding of a text of three words to five.\<close>

theorem short_text_padding_witness:
  "fst (summarizeText whole_text stable_sort ''breaking news today'' 5 60 []) = ''breaking news today breaking news''
   \<and> word_count (fst (summarizeText whole_text stable_sort ''breaking news today'' 5 60 [])) = 5"
proof -
  have h1: "''breaking news today'' \<noteq> []" by simp
  have h2: "length ''breaking news today'' < 100" by simp
  have wc: "word_count ''breaking news today'' = 3" by code_simp
  have h3: "int (word_count ''breaking news today'') < 5" by (simp add: wc)
  have sp: "split_ws ''breaking news today'' = [''breaking'', ''news'', ''today'']" by code_simp
  have t1: "\<not> is_space (hd ''breaking news today'')" by code_simp
  have t2: "\<not> is_space (last ''breaking news today'')" by code_simp
  have wc2: "word_count ''breaking news today breaking news'' = 5" by code_simp
  from short_text_padding [OF h1 h2 h3, of whole_text stable_sort 60 "[]"] t1 t2
  show ?thesis by (simp add: wc sp wc2)
qed

text \<open>
  Claim C6 as stated fails: with \<open>minWords = 55\<close> the text \<open>hello world\<close> is padded to four
  words, not to 55.
\<close>

theorem short_text_padding_counterexample:
  "fst (summarizeText whole_text stable_sort ''hello world'' 55 60 []) = ''hello world hello world''
   \<and> word_count (fst (summarizeText whole_text stable_sort ''hello world'' 55 60 [])) = 4"
  by code_simp

section \<open>Properties of the content extractor\<close>

lemma first_matching_Some:
  "first_matching sels pg = Some sel \<longleftrightarrow>
     (\<exists>pre post. sels = pre @ sel # post \<and> matches pg sel \<and> (\<forall>t\<in>set pre. \<not> matches pg t))"
proof (induction sels)
  case Nil
  then show ?case by simp
next
  case (Cons a sels)
  show ?case
  proof (cases "matches pg a")
    case True
    have "(\<exists>pre post. a # sels = pre @ sel # post \<and> matches pg sel \<and> (\<forall>t\<in>set pre. \<not> matches pg t))
        \<longleftrightarrow> a = sel"
    proof
      assume "\<exists>pre post. a # sels = pre @ sel # post \<and> matches pg sel \<and> (\<forall>t\<in>set pre. \<not> matches pg t)"
      then obtain pre post where p: "a # sels = pre @ sel # post" "\<forall>t\<in>set pre. \<not> matches pg t"
        by blast
      show "a = sel"
      proof (cases pre)
        case Nil
        with p show ?thesis by simp
      next
        case (Cons b bs)
        with p True show ?thesis by auto
      qed
    next
      assume "a = sel"
      with True have "a # sels = [] @ sel # sels \<and> matches pg sel \<and> (\<forall>t\<in>set []. \<not> matches pg t)"
        by simp
      then show "\<exists>pre post. a # sels = pre @ sel # post \<and> matches pg sel \<and> (\<forall>t\<in>set pre. \<not> matches pg t)"
        by blast
    qed
    with True show ?thesis by auto
  next
    case False
    have "(\<exists>pre post. a # sels = pre @ sel # post \<and> matches pg sel \<and> (\<forall>t\<in>set pre. \<not> matches pg t))
        \<longleftrightarrow> (\<exists>pre post. sels = pre @ sel # post \<and> matches pg sel \<and> (\<forall>t\<in>set pre. \<not> matches pg t))"
      (is "?L \<longleftrightarrow> ?R")
    proof
      assume ?L
      then obtain pre post where p: "a # sels = pre @ sel # post" "matches pg sel"
          "\<forall>t\<in>set pre. \<not> matches pg t"
        by blast
      show ?R
      proof (cases pre)
        case Nil
        with p False show ?thesis by simp
      next
        case (Cons b bs)
        with p have "sels = bs @ sel # post \<and> matches pg sel \<and> (\<forall>t\<in>set bs. \<not> matches pg t)"
          by simp
        then show ?thesis by blast
      qed
    next
      assume ?R
      then obtain pre post where p: "sels = pre @ sel # post" "matches pg sel"
          "\<forall>t\<in>set pre. \<not> matches pg t"
        by blast
      with False have "a # sels = (a # pre) @ sel # post \<and> matches pg sel
          \<and> (\<forall>t\<in>set (a # pre). \<not> matches pg t)"
        by simp
      then show ?L by blast
    qed
    with False Cons.IH show ?thesis by simp
  qed
qed

lemma first_matching_None:
  "first_matching sels pg = None \<longleftrightarrow> (\<forall>t\<in>set sels. \<not> matches pg t)"
  by (induction sels) auto

text \<open>
  Claim C5 as stated fails: on a page where both \<open>.main-content\<close> and \<open>.post-content\<close>
  match, the extractor takes \<open>.main-content\<close>, which the listed order puts last, and
  returns its text.
\<close>

theorem selector_order_counterexample:
  "first_matching possibleSelectors two_containers = Some ''.main-content''
   \<and> first_matching listed_selectors two_containers = Some ''.post-content''
   \<and> extract_page ''http://a/1'' two_containers = replicate 210 (CHR ''a'')"
  by code_simp

text \<open>
  Claim C5, as amended. The extractor tries the selectors in the order \<open>article\<close>,
  \<open>[role="main"]\<close>, \<open>main\<close>, \<open>.article-content\<close>, \<open>.story-content\<close>, \<open>.main-content\<close>,
  \<open>.post-content\<close>, \<open>#content-body\<close>, \<open>.content\<close>, \<open>.entry-content\<close>, \<open>.story-body\<close>,
  \<open>#article-body\<close>, and uses the first one that matches at least one element: a selector
  is chosen exactly when it matches and none before it in this order does, none is
  chosen exactly when none matches, and the text of a chosen container that is at least
  200 characters long is the content returned.
\<close>

theorem container_selection:
  "possibleSelectors =
     [''article'', ''[role='' @ [CHR 0x22] @ ''main'' @ [CHR 0x22] @ '']'', ''main'',
      ''.article-content'', ''.story-content'', ''.main-content'', ''.post-content'',
      ''#content-body'', ''.content'', ''.entry-content'', ''.story-body'', ''#article-body'']
   \<and> (first_matching possibleSelectors pg = Some sel \<longleftrightarrow>
        (\<exists>pre post. possibleSelectors = pre @ sel # post \<and> matches pg sel
           \<and> (\<forall>t\<in>set pre. \<not> matches pg t)))
   \<and> (first_matching possibleSelectors pg = None \<longleftrightarrow>
        (\<forall>t\<in>set possibleSelectors. \<not> matches pg t))
   \<and> (\<forall>ps. first_matching possibleSelectors pg = Some sel \<and> map_of (selected pg) sel = Some ps
          \<and> length (join blank_line (paragraph_texts ps)) \<ge> 200
        \<longrightarrow> extract_page url pg = join blank_line (paragraph_texts ps))"
proof (intro conjI allI impI)
  show "possibleSelectors =
     [''article'', ''[role='' @ [CHR 0x22] @ ''main'' @ [CHR 0x22] @ '']'', ''main'',
      ''.article-content'', ''.story-content'', ''.main-content'', ''.post-content'',
      ''#content-body'', ''.content'', ''.entry-content'', ''.story-body'', ''#article-body'']"
    by (simp add: possibleSelectors_def)
  show "first_matching possibleSelectors pg = Some sel \<longleftrightarrow>
        (\<exists>pre post. possibleSelectors = pre @ sel # post \<and> matches pg sel
           \<and> (\<forall>t\<in>set pre. \<not> matches pg t))"
    by (rule first_matching_Some)
  show "first_matching possibleSelectors pg = None \<longleftrightarrow>
        (\<forall>t\<in>set possibleSelectors. \<not> matches pg t)"
    by (rule first_matching_None)
next
  fix ps
  assume a: "first_matching possibleSelectors pg = Some sel \<and> map_of (selected pg) sel = Some ps
          \<and> length (join blank_line (paragraph_texts ps)) \<ge> 200"
  then have "length (join blank_line (paragraph_texts ps)) \<ge> 200" by simp
  then have "join blank_line (paragraph_texts ps) \<noteq> []" by auto
  with a show "extract_page url pg = join blank_line (paragraph_texts ps)"
    by (simp add: extract_page_def Let_def)
qed

text \<open>The selection on the page with two containers.\<close>

theorem container_selection_witness:
  "first_matching possibleSelectors two_containers = Some ''.main-content''
   \<and> extract_page ''http://a/1'' two_containers = replicate 210 (CHR ''a'')"
proof -
  have m: "matches two_containers ''.main-content''" by code_simp
  have n: "\<forall>t\<in>set [''article'', ''[role='' @ [CHR 0x22] @ ''main'' @ [CHR 0x22] @ '']'', ''main'',
      ''.article-content'', ''.story-content'']. \<not> matches two_containers t"
    by code_simp
  have p: "possibleSelectors = [''article'', ''[role='' @ [CHR 0x22] @ ''main'' @ [CHR 0x22] @ '']'', ''main'',
      ''.article-content'', ''.story-content''] @ ''.main-content'' # [''.post-content'',
      ''#content-body'', ''.content'', ''.entry-content'', ''.story-body'', ''#article-body'']"
    by (simp add: possibleSelectors_def)
  have ps: "map_of (selected two_containers) ''.main-content'' = Some [replicate 210 (CHR ''a'')]"
    by code_simp
  have j: "join blank_line (paragraph_texts [replicate 210 (CHR ''a'')]) = replicate 210 (CHR ''a'')"
    by code_simp
  have l: "length (replicate 210 (CHR ''a'')) \<ge> 200" by simp
  note t = container_selection [of two_containers "''.main-content''" "''http://a/1''"]
  from t m n p have f: "first_matching possibleSelectors two_containers = Some ''.main-content''"
    by blast
  moreover from t f ps j l have "extract_page ''http://a/1'' two_containers = replicate 210 (CHR ''a'')"
    by (metis (no_types, lifting))
  ultimately show ?thesis by simp
qed

section \<open>Properties of the feed normalizer\<close>

lemma normalize_item_link: "normalize_item url name it = Inr c \<Longrightarrow> link c = resolve_link it"
  by (auto simp: normalize_item_def split: sum.splits)

text \<open>
  Claim C3 as stated fails: an item without a \<open>link\<close> child is normalized to an item
  whose link is \<open>undefined\<close>, not the sentinel \<open>#\<close>.
\<close>

theorem link_sentinel_counterexample:
  "normalize_item ''http://feed'' (Str ''Feed'') [(''title'', Str ''Headline'')]
     = Inr \<lparr> guid = Str ''http://feed-Headline-undefined'',
             title = Str ''Headline'',
             description = Str ''No Description'',
             link = Undefined,
             pubDate = Str ''No Date'',
             imageUrl = Null,
             source = ''http://feed'',
             sourceName = Str ''Feed'' \<rparr>"
  by code_simp

text \<open>
  Claim C3, as amended. The link of a normalized item is never \<open>null\<close>. It is the item's
  link when that is a string; the \<open>href\<close> attribute when the link is an element with
  attributes, and \<open>undefined\<close> when that element has no \<open>href\<close>; the sentinel \<open>#\<close> when the
  link is an element without attributes or a repeated element; and \<open>undefined\<close> when the
  item has no link. The routes take an undefined or empty link and the sentinel \<open>#\<close> as
  unresolvable.
\<close>

theorem link_resolution:
  assumes "normalize_item url name it = Inr c"
  shows "link c \<noteq> Null
     \<and> (\<forall>s. fld it ''link'' = Some (Str s) \<longrightarrow> link c = Defined s)
     \<and> (\<forall>as t h. fld it ''link'' = Some (Elem (Some as) t) \<and> map_of as ''href'' = Some h
            \<longrightarrow> link c = Defined h)
     \<and> (\<forall>as t. fld it ''link'' = Some (Elem (Some as) t) \<and> map_of as ''href'' = None
            \<longrightarrow> link c = Undefined)
     \<and> (\<forall>t. fld it ''link'' = Some (Elem None t) \<longrightarrow> link c = Defined ''#'')
     \<and> (\<forall>xs. fld it ''link'' = Some (Arr xs) \<longrightarrow> link c = Defined ''#'')
     \<and> (fld it ''link'' = None \<longrightarrow> link c = Undefined)
     \<and> (resolvable (link c) = None
            \<longleftrightarrow> link c = Undefined \<or> link c = Defined [] \<or> link c = Defined ''#'')"
proof -
  have l: "link c = resolve_link it" using assms by (rule normalize_item_link)
  have n: "resolve_link it \<noteq> Null"
    by (auto simp: resolve_link_def attr_def split: option.splits xval.splits)
  have r: "resolvable (resolve_link it) = None
            \<longleftrightarrow> resolve_link it = Undefined \<or> resolve_link it = Defined []
                \<or> resolve_link it = Defined ''#''"
    using n by (cases "resolve_link it") (auto simp: resolvable_def)
  show ?thesis
    unfolding l using n r by (simp add: resolve_link_def attr_def)
qed

text \<open>
  Three items: a link that is a string, an Atom link with an \<open>href\<close>, and two links.
\<close>

theorem link_resolution_witness:
  "map_sum id link (normalize_item ''http://feed'' (Str ''Feed'') [(''link'', Str ''http://a/1'')])
     = Inr (Defined ''http://a/1'')
   \<and> map_sum id link (normalize_item ''http://feed'' (Str ''Feed'')
        [(''link'', Elem (Some [(''rel'', ''alternate''), (''href'', ''http://a/2'')]) None)])
     = Inr (Defined ''http://a/2'')
   \<and> map_sum id link (normalize_item ''http://feed'' (Str ''Feed'')
        [(''link'', Arr [Elem (Some [(''href'', ''http://a/3'')]) None,
                         Elem (Some [(''href'', ''http://a/4'')]) None])])
     = Inr (Defined ''#'')"
proof -
  let ?n = "normalize_item ''http://feed'' (Str ''Feed'')"
  let ?i1 = "[(''link'', Str ''http://a/1'')]"
  let ?i2 = "[(''link'', Elem (Some [(''rel'', ''alternate''), (''href'', ''http://a/2'')]) None)]"
  let ?i3 = "[(''link'', Arr [Elem (Some [(''href'', ''http://a/3'')]) None,
                         Elem (Some [(''href'', ''http://a/4'')]) None])]"
  obtain c1 where c1: "?n ?i1 = Inr c1"
    by (cases "?n ?i1") (simp_all add: normalize_item_def resolve_image_def image_cond_def fld_def
          truthy_def description_image_def)
  obtain c2 where c2: "?n ?i2 = Inr c2"
    by (cases "?n ?i2") (simp_all add: normalize_item_def resolve_image_def image_cond_def fld_def
          truthy_def description_image_def)
  obtain c3 where c3: "?n ?i3 = Inr c3"
    by (cases "?n ?i3") (simp_all add: normalize_item_def resolve_image_def image_cond_def fld_def
          truthy_def description_image_def)
  have "link c1 = Defined ''http://a/1''"
    using link_resolution [OF c1] by (simp add: fld_def)
  moreover have "link c2 = Defined ''http://a/2''"
    using link_resolution [OF c2] by (simp add: fld_def)
  moreover have "link c3 = Defined ''#''"
    using link_resolution [OF c3] by (simp add: fld_def)
  ultimately show ?thesis by (simp add: c1 c2 c3)
qed

text \<open>
  Claim C4. The code fails it at an Atom entry that has a link element but no \<open>id\<close>: the
  guid is the link element itself, an object, while the link of the same item is the
  string of its \<open>href\<close>.
\<close>

theorem guid_of_atom_entry_without_id:
  "normalize_item ''http://feed'' (Str ''Feed'')
       [(''title'', Str ''Headline''),
        (''link'', Elem (Some [(''href'', ''http://a/1'')]) None),
        (''updated'', Str ''2024-05-01T10:00:00Z'')]
     = Inr \<lparr> guid = Elem (Some [(''href'', ''http://a/1'')]) None,
             title = Str ''Headline'',
             description = Str ''No Description'',
             link = Defined ''http://a/1'',
             pubDate = Str ''2024-05-01T10:00:00Z'',
             imageUrl = Null,
             source = ''http://feed'',
             sourceName = Str ''Feed'' \<rparr>"
  by code_simp

section \<open>Failures inside one feed\<close>








section \<open>Properties of the batch pipeline\<close>

text \<open>
  Claim C1. The code fails it where the extraction fails: the article of the item times
  out, \<open>extractArticleContent\<close> returns the error message as the content, and the
  summary of the item is the error text, padded by repeating it. The summary of the
  description, which the claim promises and the handler of lines 387 to 397 would give,
  is the second text.
\<close>

theorem extraction_failure_summary:
  "process_item whole_text stable_sort offline linked_item
     = Inr (processed_item linked_item
         (''Error extracting content: timeout of 15000ms exceeded ''
          @ ''Error extracting content: timeout of 15000ms exceeded''))
   \<and> fst (summarizeText_args whole_text stable_sort ''Parliament passed the budget on Tuesday.'' (Some 60) None [])
     = ''Parliament passed the budget on Tuesday. Parliament passed the budget on Tuesday.''"
  by code_simp

text \<open>
  Claim C2 as stated fails: a description of thirty words is padded to 60 words by the
  pipeline, and to 55 words by the summarizer with its default bounds.
\<close>

theorem default_bounds_counterexample:
  "process_item whole_text stable_sort offline unlinked_item
     = Inr (processed_item unlinked_item
         (''a b c d e f g h i j k l m n o p q r s t u v w x y z A B C D ''
          @ ''a b c d e f g h i j k l m n o p q r s t u v w x y z A B C D''))
   \<and> fst (summarizeText whole_text stable_sort thirty_words 55 60 [])
     = ''a b c d e f g h i j k l m n o p q r s t u v w x y z A B C D ''
          @ ''a b c d e f g h i j k l m n o p q r s t u v w x y''"
  by code_simp

lemma summarize_value_Str:
  "summarize_value tokenize engine_sort (Str s) (Some 60) None = Inr (fst (summarizeText tokenize engine_sort s 60 60 []))"
  by (simp add: summarize_value_def summarizeText_args_def)

text \<open>
  Claim C2, as amended. Every summarization of the batch pipeline, in process-all and in
  process-one, runs with \<open>minWords = 60\<close>, which the call passes, and \<open>maxWords = 60\<close>, the
  default: on the extracted content when the link is resolvable, on the description
  otherwise.
\<close>

theorem pipeline_bounds:
  "(\<forall>url. resolvable (link it) = Some url \<longrightarrow>
      process_item tokenize engine_sort get it
        = Inr (processed_item it
            (fst (summarizeText tokenize engine_sort (extractArticleContent get url) 60 60 []))))
   \<and> (\<forall>d. resolvable (link it) = None
          \<and> default_to (Some (description it)) ''No content to summarize.'' = Str d \<longrightarrow>
      process_item tokenize engine_sort get it
        = Inr (processed_item it (fst (summarizeText tokenize engine_sort d 60 60 []))))
   \<and> (\<forall>url. find (\<lambda>i. guid i = Str g) (concat (map (fetchRSSFeed hostname feeds) rssFeeds)) = Some it
          \<and> resolvable (link it) = Some url \<longrightarrow>
      process_one hostname tokenize engine_sort feeds get g
        = Json (processed_item it
            (fst (summarizeText tokenize engine_sort (extractArticleContent get url) 60 60 []))))
   \<and> (\<forall>d. find (\<lambda>i. guid i = Str g) (concat (map (fetchRSSFeed hostname feeds) rssFeeds)) = Some it
          \<and> resolvable (link it) = None \<and> description it = Str d \<longrightarrow>
      process_one hostname tokenize engine_sort feeds get g
        = Json (spread_item it (fst (summarizeText tokenize engine_sort d 60 60 []))))"
  by (simp add: process_item_def process_one_def summarize_value_Str Let_def)

text \<open>The bounds at the two items and at the item of a feed.\<close>

theorem pipeline_bounds_witness:
  "process_item whole_text stable_sort offline linked_item
     = Inr (processed_item linked_item
         (fst (summarizeText whole_text stable_sort ''Error extracting content: timeout of 15000ms exceeded'' 60 60 [])))
   \<and> process_item whole_text stable_sort offline unlinked_item
     = Inr (processed_item unlinked_item (fst (summarizeText whole_text stable_sort thirty_words 60 60 [])))
   \<and> process_one no_hostname whole_text stable_sort (sample_world [sample_item]) offline ''a-1''
     = Json [(''guid'', JVal (Str ''a-1'')),
             (''title'', JVal (Str ''Budget passed'')),
             (''description'', JVal (Str ''No Description'')),
             (''summarized_content'',
                JVal (Str (fst (summarizeText whole_text stable_sort
                  ''Error extracting content: timeout of 15000ms exceeded'' 60 60 [])))),
             (''imageUrl'', JVal (Str ''http://a/1.png'')),
             (''sourceName'', JVal (Str ''Feed'')),
             (''pubDate'', JVal (Str ''No Date''))]"
proof -
  have r1: "resolvable (link linked_item) = Some ''http://a/1''" by code_simp
  have e: "extractArticleContent offline ''http://a/1''
             = ''Error extracting content: timeout of 15000ms exceeded''" by code_simp
  have r2: "resolvable (link unlinked_item) = None
          \<and> default_to (Some (description unlinked_item)) ''No content to summarize.''
              = Str thirty_words" by code_simp
  let ?c = "\<lparr> guid = Str ''a-1'', title = Str ''Budget passed'',
              description = Str ''No Description'', link = Defined ''http://a/1'',
              pubDate = Str ''No Date'', imageUrl = Defined ''http://a/1.png'',
              source = ''https://feeds.bbci.co.uk/news/rss.xml'', sourceName = Str ''Feed'' \<rparr>"
  have f: "find (\<lambda>i. guid i = Str ''a-1'')
             (concat (map (fetchRSSFeed no_hostname (sample_world [sample_item])) rssFeeds))
           = Some ?c" by code_simp
  have r3: "resolvable (link ?c) = Some ''http://a/1''" by code_simp
  from pipeline_bounds [of linked_item whole_text stable_sort offline] r1 e
  have "process_item whole_text stable_sort offline linked_item
     = Inr (processed_item linked_item
         (fst (summarizeText whole_text stable_sort ''Error extracting content: timeout of 15000ms exceeded'' 60 60 [])))"
    by simp
  moreover from pipeline_bounds [of unlinked_item whole_text stable_sort offline] r2
  have "process_item whole_text stable_sort offline unlinked_item
     = Inr (processed_item unlinked_item (fst (summarizeText whole_text stable_sort thirty_words 60 60 [])))"
    by blast
  moreover from pipeline_bounds [of ?c whole_text stable_sort offline "''a-1''" no_hostname "sample_world [sample_item]"]
      f r3 e
  have "process_one no_hostname whole_text stable_sort (sample_world [sample_item]) offline ''a-1''
     = Json (processed_item ?c
         (fst (summarizeText whole_text stable_sort ''Error extracting content: timeout of 15000ms exceeded'' 60 60 [])))"
    by simp
  ultimately show ?thesis by (simp add: processed_item_def of_nullable_def)
qed

text \<open>
  Claim C10 as stated fails: an entry without a link is answered with the spread item,
  whose link is \<open>undefined\<close>; the JSON body leaves that property out, so the response
  carries the source but no link.
\<close>

theorem process_one_link_dropped_counterexample:
  "process_one no_hostname whole_text stable_sort (atom_world plain_entry) offline ''a-3''
     = Json [(''guid'', JVal (Str ''a-3'')),
             (''title'', JVal (Str ''Weather'')),
             (''description'', JVal (Str ''Rain is expected.'')),
             (''link'', JUndefined),
             (''pubDate'', JVal (Str ''No Date'')),
             (''imageUrl'', JNull),
             (''source'', JVal (Str ''https://feeds.bbci.co.uk/news/rss.xml'')),
             (''sourceName'', JVal (Str ''Feed'')),
             (''summarized_content'', JVal (Str ''Rain is expected. Rain is expected.''))]
   \<and> body_keys (process_one no_hostname whole_text stable_sort (atom_world plain_entry) offline ''a-3'')
     = Some [''guid'', ''title'', ''description'', ''pubDate'', ''imageUrl'', ''source'',
             ''sourceName'', ''summarized_content'']"
  by code_simp

text \<open>
  Claim C10, as amended. Process-one answers with records of two shapes, depending on the
  link. For an item with a resolvable link the response carries the fields of a processed
  item and no other: \<open>guid\<close>, \<open>title\<close>, \<open>description\<close>, \<open>summarized_content\<close>, \<open>imageUrl\<close>,
  \<open>sourceName\<close>, \<open>pubDate\<close>, without \<open>imageUrl\<close> when that is undefined. For an item whose
  link is unresolvable and whose description is a string the answer is the canonical item
  spread with \<open>summarized_content\<close>, so the response carries in addition the source, and
  the link when the link is defined (empty or \<open>#\<close>); a link that is undefined is left out
  of the response, as an undefined \<open>imageUrl\<close> is.
\<close>

theorem process_one_shapes:
  assumes "find (\<lambda>i. guid i = Str g) (concat (map (fetchRSSFeed hostname feeds) rssFeeds)) = Some it"
  shows "(resolvable (link it) \<noteq> None \<longrightarrow>
            body_keys (process_one hostname tokenize engine_sort feeds get g)
              = Some (if imageUrl it = Undefined
                      then [''guid'', ''title'', ''description'', ''summarized_content'',
                            ''sourceName'', ''pubDate'']
                      else [''guid'', ''title'', ''description'', ''summarized_content'',
                            ''imageUrl'', ''sourceName'', ''pubDate'']))
       \<and> (resolvable (link it) = None \<and> is_string (description it) \<longrightarrow>
            body_keys (process_one hostname tokenize engine_sort feeds get g)
              = Some (filter (\<lambda>key. \<not> (key = ''link'' \<and> link it = Undefined)
                                    \<and> \<not> (key = ''imageUrl'' \<and> imageUrl it = Undefined))
                        [''guid'', ''title'', ''description'', ''link'', ''pubDate'', ''imageUrl'',
                         ''source'', ''sourceName'', ''summarized_content'']))"
proof (intro conjI impI)
  assume "resolvable (link it) \<noteq> None"
  then obtain url where "resolvable (link it) = Some url" by auto
  with assms have "process_one hostname tokenize engine_sort feeds get g
      = Json (processed_item it
          (fst (summarizeText tokenize engine_sort (extractArticleContent get url) 60 60 [])))"
    by (simp add: process_one_def summarize_value_Str)
  then show "body_keys (process_one hostname tokenize engine_sort feeds get g)
              = Some (if imageUrl it = Undefined
                      then [''guid'', ''title'', ''description'', ''summarized_content'',
                            ''sourceName'', ''pubDate'']
                      else [''guid'', ''title'', ''description'', ''summarized_content'',
                            ''imageUrl'', ''sourceName'', ''pubDate''])"
    by (cases "imageUrl it")
       (simp_all add: body_keys_def response_body_def processed_item_def of_nullable_def)
next
  assume a: "resolvable (link it) = None \<and> is_string (description it)"
  then obtain d where "description it = Str d" by (cases "description it") (auto simp: is_string_def)
  with a assms have "process_one hostname tokenize engine_sort feeds get g
      = Json (spread_item it (fst (summarizeText tokenize engine_sort d 60 60 [])))"
    by (simp add: process_one_def summarize_value_Str)
  then show "body_keys (process_one hostname tokenize engine_sort feeds get g)
              = Some (filter (\<lambda>key. \<not> (key = ''link'' \<and> link it = Undefined)
                                    \<and> \<not> (key = ''imageUrl'' \<and> imageUrl it = Undefined))
                        [''guid'', ''title'', ''description'', ''link'', ''pubDate'', ''imageUrl'',
                         ''source'', ''sourceName'', ''summarized_content''])"
    by (cases "link it"; cases "imageUrl it")
       (simp_all add: body_keys_def response_body_def spread_item_def of_nullable_def)
qed

text \<open>
  The answers at three items of a feed: one with a link, one without a link, and one with
  two link elements, whose link is the sentinel \<open>#\<close>.
\<close>

theorem process_one_shapes_witness:
  "body_keys (process_one no_hostname whole_text stable_sort (sample_world [sample_item]) offline ''a-1'')
     = Some [''guid'', ''title'', ''description'', ''summarized_content'', ''imageUrl'',
             ''sourceName'', ''pubDate'']
   \<and> body_keys (process_one no_hostname whole_text stable_sort (atom_world plain_entry) offline ''a-3'')
     = Some [''guid'', ''title'', ''description'', ''pubDate'', ''imageUrl'', ''source'',
             ''sourceName'', ''summarized_content'']
   \<and> body_keys (process_one no_hostname whole_text stable_sort (atom_world two_links_entry) offline ''a-4'')
     = Some [''guid'', ''title'', ''description'', ''link'', ''pubDate'', ''imageUrl'', ''source'',
             ''sourceName'', ''summarized_content'']"
proof -
  let ?c1 = "\<lparr> guid = Str ''a-1'', title = Str ''Budget passed'',
              description = Str ''No Description'', link = Defined ''http://a/1'',
              pubDate = Str ''No Date'', imageUrl = Defined ''http://a/1.png'',
              source = ''https://feeds.bbci.co.uk/news/rss.xml'', sourceName = Str ''Feed'' \<rparr>"
  let ?c3 = "\<lparr> guid = Str ''a-3'', title = Str ''Weather'',
               description = Str ''Rain is expected.'',
               link = Undefined, pubDate = Str ''No Date'', imageUrl = Null,
               source = ''https://feeds.bbci.co.uk/news/rss.xml'', sourceName = Str ''Feed'' \<rparr>"
  let ?c4 = "\<lparr> guid = Str ''a-4'', title = Str ''Weather'',
               description = Str ''Rain is expected.'',
               link = Defined ''#'', pubDate = Str ''No Date'', imageUrl = Null,
               source = ''https://feeds.bbci.co.uk/news/rss.xml'', sourceName = Str ''Feed'' \<rparr>"
  have f1: "find (\<lambda>i. guid i = Str ''a-1'')
             (concat (map (fetchRSSFeed no_hostname (sample_world [sample_item])) rssFeeds))
           = Some ?c1" by code_simp
  have f3: "find (\<lambda>i. guid i = Str ''a-3'')
             (concat (map (fetchRSSFeed no_hostname (atom_world plain_entry)) rssFeeds))
           = Some ?c3" by code_simp
  have f4: "find (\<lambda>i. guid i = Str ''a-4'')
             (concat (map (fetchRSSFeed no_hostname (atom_world two_links_entry)) rssFeeds))
           = Some ?c4" by code_simp
  have r1: "resolvable (link ?c1) \<noteq> None" by code_simp
  have r3: "resolvable (link ?c3) = None \<and> is_string (description ?c3)" by code_simp
  have r4: "resolvable (link ?c4) = None \<and> is_string (description ?c4)" by code_simp
  from process_one_shapes [OF f1, of whole_text stable_sort offline] r1
  have "body_keys (process_one no_hostname whole_text stable_sort (sample_world [sample_item]) offline ''a-1'')
     = Some [''guid'', ''title'', ''description'', ''summarized_content'', ''imageUrl'',
             ''sourceName'', ''pubDate'']"
    by simp
  moreover from process_one_shapes [OF f3, of whole_text stable_sort offline] r3
  have "body_keys (process_one no_hostname whole_text stable_sort (atom_world plain_entry) offline ''a-3'')
     = Some [''guid'', ''title'', ''description'', ''pubDate'', ''imageUrl'', ''source'',
             ''sourceName'', ''summarized_content'']"
    by simp
  moreover from process_one_shapes [OF f4, of whole_text stable_sort offline] r4
  have "body_keys (process_one no_hostname whole_text stable_sort (atom_world two_links_entry) offline ''a-4'')
     = Some [''guid'', ''title'', ''description'', ''link'', ''pubDate'', ''imageUrl'', ''source'',
             ''sourceName'', ''summarized_content'']"
    by simp
  ultimately show ?thesis by simp
qed

section \<open>The order of the processed items\<close>

lemma js_slice_nat: "js_slice xs (int i) (int j) = take (j - i) (drop i xs)"
proof (cases "i \<le> length xs")
  case True
  then show ?thesis
    by (auto simp: js_slice_def Let_def min_def nat_diff_distrib')
next
  case False
  then show ?thesis by (simp add: js_slice_def Let_def min_def)
qed

lemma settle_fold:
  "settle order (map Inr vs) slots
     = (let slots' = fold (\<lambda>i s. if i < length vs then s[i := Some (vs ! i)] else s) order slots
        in if None \<in> set slots' then None else Some (Inr (map the slots')))"
  by (induction order arbitrary: slots) (simp_all add: Let_def)

lemma fold_slots_length:
  "length (fold (\<lambda>i s. if i < length vs then s[i := Some (vs ! i)] else s) order slots) = length slots"
  by (induction order arbitrary: slots) simp_all

lemma fold_slots_nth:
  assumes "j < length slots" and "length slots = length vs"
  shows "fold (\<lambda>i s. if i < length vs then s[i := Some (vs ! i)] else s) order slots ! j
     = (if j \<in> set order then Some (vs ! j) else slots ! j)"
  using assms
proof (induction order arbitrary: slots rule: rev_induct)
  case Nil
  then show ?case by simp
next
  case (snoc i order)
  let ?s = "fold (\<lambda>i s. if i < length vs then s[i := Some (vs ! i)] else s) order slots"
  have len: "length ?s = length slots" by (rule fold_slots_length)
  show ?case
  proof (cases "i = j")
    case True
    with snoc.prems len show ?thesis by simp
  next
    case False
    with snoc.prems len snoc.IH [OF snoc.prems] show ?thesis by simp
  qed
qed

lemma promise_all_fulfilled:
  assumes "{0..<length vs} \<subseteq> set order"
  shows "promise_all order (map Inr vs) = Some (Inr vs)"
proof -
  let ?s = "fold (\<lambda>i s. if i < length vs then s[i := Some (vs ! i)] else s) order
              (replicate (length vs) None)"
  have len: "length ?s = length vs" by (simp add: fold_slots_length)
  have nth: "\<And>j. j < length vs \<Longrightarrow> ?s ! j = Some (vs ! j)"
    using assms by (subst fold_slots_nth) auto
  have eq: "?s = map Some vs"
    by (rule nth_equalityI) (simp_all add: len nth)
  have "None \<notin> set ?s" unfolding eq by auto
  moreover have "map the ?s = vs" unfolding eq by (simp add: comp_def)
  ultimately show ?thesis
    by (simp add: promise_all_def settle_fold Let_def)
qed

lemma process_batches_all:
  assumes "map f allItems = map Inr ys"
    and "\<forall>k. i + k * batchSize < length allItems \<longrightarrow>
           {0..<min batchSize (length allItems - (i + k * batchSize))} \<subseteq> set (order (i + k * batchSize))"
  shows "process_batches order f allItems i acc = Some (Inr (acc @ drop i ys))"
  using assms
proof (induction order f allItems i acc rule: process_batches.induct)
  case (1 order f allItems i acc)
  have len: "length ys = length allItems"
    using "1.prems"(1) by (metis length_map)
  show ?case
  proof (cases "i < length allItems")
    case False
    then show ?thesis using len by (subst process_batches.simps) simp
  next
    case True
    let ?batch = "js_slice allItems (int i) (int (i + batchSize))"
    let ?vs = "take batchSize (drop i ys)"
    have batch: "?batch = take batchSize (drop i allItems)"
      using js_slice_nat [of allItems i "i + batchSize"] by simp
    have "map f ?batch = take batchSize (drop i (map f allItems))"
      unfolding batch by (simp add: take_map drop_map)
    then have mapped: "map f ?batch = map Inr ?vs"
      unfolding "1.prems"(1) by (simp add: take_map drop_map)
    have lvs: "length ?vs = min batchSize (length allItems - i)" using len by simp
    have "{0..<min batchSize (length allItems - (i + 0 * batchSize))} \<subseteq> set (order (i + 0 * batchSize))"
      using "1.prems"(2) True by (metis add.right_neutral mult_zero_left)
    then have "{0..<length ?vs} \<subseteq> set (order i)" using lvs by simp
    then have pa: "promise_all (order i) (map f ?batch) = Some (Inr ?vs)"
      unfolding mapped by (rule promise_all_fulfilled)
    have next_order: "\<forall>k. i + batchSize + k * batchSize < length allItems \<longrightarrow>
           {0..<min batchSize (length allItems - (i + batchSize + k * batchSize))}
             \<subseteq> set (order (i + batchSize + k * batchSize))"
    proof (intro allI impI)
      fix k assume "i + batchSize + k * batchSize < length allItems"
      then have "i + Suc k * batchSize < length allItems" by (simp add: add.assoc)
      with "1.prems"(2) have "{0..<min batchSize (length allItems - (i + Suc k * batchSize))}
             \<subseteq> set (order (i + Suc k * batchSize))" by blast
      then show "{0..<min batchSize (length allItems - (i + batchSize + k * batchSize))}
             \<subseteq> set (order (i + batchSize + k * batchSize))" by (simp add: add.assoc)
    qed
    have IH: "process_batches order f allItems (i + batchSize) (acc @ ?vs)
          = Some (Inr ((acc @ ?vs) @ drop (i + batchSize) ys))"
      using "1.IH" [OF True refl pa refl "1.prems"(1) next_order] .
    have "?vs @ drop (i + batchSize) ys = drop i ys"
      by (metis add.commute append_take_drop_id drop_drop)
    then have "(acc @ ?vs) @ drop (i + batchSize) ys = acc @ drop i ys" by simp
    with IH have "process_batches order f allItems (i + batchSize) (acc @ ?vs)
          = Some (Inr (acc @ drop i ys))" by simp
    then show ?thesis
      using True pa by (subst process_batches.simps) (simp add: Let_def)
  qed
qed

lemma process_item_total:
  assumes "resolvable (link it) \<noteq> None \<or> is_string (description it)"
  shows "\<exists>summary. process_item tokenize engine_sort get it = Inr (processed_item it summary)"
proof (cases "resolvable (link it)")
  case (Some url)
  then have "process_item tokenize engine_sort get it
      = Inr (processed_item it (fst (summarizeText tokenize engine_sort (extractArticleContent get url) 60 60 [])))"
    by (simp add: process_item_def summarize_value_Str)
  then show ?thesis by blast
next
  case None
  with assms obtain d where d: "description it = Str d"
    by (cases "description it") (auto simp: is_string_def)
  have "\<exists>d'. default_to (Some (description it)) ''No content to summarize.'' = Str d'"
    using d by (simp add: default_to_def truthy_def)
  then obtain d' where "default_to (Some (description it)) ''No content to summarize.'' = Str d'"
    by blast
  with None have "process_item tokenize engine_sort get it
      = Inr (processed_item it (fst (summarizeText tokenize engine_sort d' 60 60 [])))"
    by (simp add: process_item_def summarize_value_Str)
  then show ?thesis by blast
qed

lemma processed_item_guid: "map_of (processed_item it summary) ''guid'' = Some (JVal (guid it))"
  by (simp add: processed_item_def)

text \<open>
  Claim C8. In process-all the processed items come in the order of the sorted items,
  whatever the order in which the promises of each batch settle: when no item throws
  (its link is resolvable or its description is a string) and every promise of every
  batch settles, the response holds, item by item in the order of the sorted input, the
  result of processing that item, and so the guids in that order.
\<close>

theorem process_all_order:
  assumes "allItems = sort_items (by_date parse) (concat (map (fetchRSSFeed hostname feeds) rssFeeds))"
    and "\<forall>it\<in>set allItems. resolvable (link it) \<noteq> None \<or> is_string (description it)"
    and "\<forall>k. k * batchSize < length allItems \<longrightarrow>
           {0..<min batchSize (length allItems - k * batchSize)} \<subseteq> set (order (k * batchSize))"
  shows "\<exists>objs. process_all hostname tokenize engine_sort sort_items feeds articles parse order = Some (Items objs)
           \<and> map Inr objs = map (process_item tokenize engine_sort articles) allItems
           \<and> map (\<lambda>obj. map_of obj ''guid'') objs = map (\<lambda>it. Some (JVal (guid it))) allItems"
proof -
  let ?f = "process_item tokenize engine_sort articles"
  let ?objs = "map (\<lambda>it. case ?f it of Inr obj \<Rightarrow> obj | Inl e \<Rightarrow> []) allItems"
  have each: "\<And>it. it \<in> set allItems \<Longrightarrow> \<exists>summary. ?f it = Inr (processed_item it summary)"
    using assms(2) process_item_total by blast
  have ok: "map ?f allItems = map Inr ?objs"
  proof (simp, intro ballI)
    fix it assume "it \<in> set allItems"
    from each [OF this] obtain summary where "?f it = Inr (processed_item it summary)" by blast
    then show "?f it = Inr (case ?f it of Inr obj \<Rightarrow> obj | Inl e \<Rightarrow> [])" by simp
  qed
  have guids: "map (\<lambda>obj. map_of obj ''guid'') ?objs = map (\<lambda>it. Some (JVal (guid it))) allItems"
  proof (simp, intro ballI)
    fix it assume "it \<in> set allItems"
    from each [OF this] obtain summary where "?f it = Inr (processed_item it summary)" by blast
    then show "map_of (case ?f it of Inr obj \<Rightarrow> obj | Inl e \<Rightarrow> []) ''guid'' = Some (JVal (guid it))"
      by (simp add: processed_item_guid)
  qed
  have "\<forall>k. 0 + k * batchSize < length allItems \<longrightarrow>
           {0..<min batchSize (length allItems - (0 + k * batchSize))}
             \<subseteq> set (order (0 + k * batchSize))"
    using assms(3) by simp
  with ok have "process_batches order ?f allItems 0 [] = Some (Inr ([] @ drop 0 ?objs))"
    by (rule process_batches_all)
  then have "process_all hostname tokenize engine_sort sort_items feeds articles parse order = Some (Items ?objs)"
    unfolding assms(1) by (simp add: process_all_def Let_def)
  with ok guids show ?thesis by metis
qed

text \<open>
  Seven items in batches of three, the third promise of a batch settling first: the guids
  of the response are in the order of the input.
\<close>

theorem process_all_order_witness:
  "\<exists>objs. process_all no_hostname whole_text stable_sort stable_sort (sample_world seven_items) offline no_dates third_first
            = Some (Items objs)
         \<and> map (\<lambda>obj. map_of obj ''guid'') objs
            = map (\<lambda>n. Some (JVal (Str n))) [''1'', ''2'', ''3'', ''4'', ''5'', ''6'', ''7'']"
proof -
  let ?all = "stable_sort (by_date no_dates)
                (concat (map (fetchRSSFeed no_hostname (sample_world seven_items)) rssFeeds))"
  have ok: "\<forall>it\<in>set ?all. resolvable (link it) \<noteq> None \<or> is_string (description it)"
    by code_simp
  have len: "length ?all = 7" by code_simp
  have guids: "map (\<lambda>it. Some (JVal (guid it))) ?all
      = map (\<lambda>n. Some (JVal (Str n))) [''1'', ''2'', ''3'', ''4'', ''5'', ''6'', ''7'']"
    by code_simp
  have settle: "\<forall>k. k * batchSize < length ?all \<longrightarrow>
           {0..<min batchSize (length ?all - k * batchSize)} \<subseteq> set (third_first (k * batchSize))"
    by (auto simp: third_first_def batchSize_def)
  from process_all_order
         [of ?all stable_sort no_dates no_hostname "sample_world seven_items" third_first
             whole_text stable_sort offline]
       ok settle
  obtain objs where
    "process_all no_hostname whole_text stable_sort stable_sort (sample_world seven_items) offline no_dates third_first
       = Some (Items objs)"
    "map (\<lambda>obj. map_of obj ''guid'') objs = map (\<lambda>it. Some (JVal (guid it))) ?all"
    by blast
  with guids show ?thesis by simp
qed

end
